theory Spec2Isabelle
  imports Main
begin

chapter \<open>The Readest plugin runtime: embedding\<close>

section \<open>pluginStore: the UI registries\<close>

text \<open>
  The Zustand store of \<^verbatim>\<open>store/pluginStore\<close>. An entry of the three ordered,
  id-keyed sequences (\<^verbatim>\<open>ToolbarButton\<close>, \<^verbatim>\<open>ContextMenuItem\<close>, \<^verbatim>\<open>StatusBarItem\<close>) is its
  \<^verbatim>\<open>id\<close> together with the remaining fields, which the store never inspects and
  which stay a type parameter. React components are a type parameter as well.
  The two \<^verbatim>\<open>Map\<close>s are partial functions from their key.
\<close>

record 'x ui_item =
  item_id :: string
  item_body :: 'x

record 'c PluginPanelEntry =
  panel_pluginId :: string
  panel_panelId :: string
  panel_component :: 'c
  panel_visible :: bool

record 'c PluginSettingsEntry =
  settings_pluginId :: string
  settings_component :: 'c

record ('c, 'x) PluginStoreState =
  pluginPanels :: "string \<rightharpoonup> 'c PluginPanelEntry"
  pluginToolbarButtons :: "'x ui_item list"
  pluginContextMenuItems :: "'x ui_item list"
  pluginStatusBarItems :: "'x ui_item list"
  pluginSettingsPages :: "string \<rightharpoonup> 'c PluginSettingsEntry"
  initialized :: bool
  pluginCount :: nat

text \<open>The initial state of the store.\<close>

definition initialPluginStore :: "('c, 'x) PluginStoreState" where
  "initialPluginStore =
     \<lparr>pluginPanels = Map.empty, pluginToolbarButtons = [], pluginContextMenuItems = [],
      pluginStatusBarItems = [], pluginSettingsPages = Map.empty,
      initialized = False, pluginCount = 0\<rparr>"

text \<open>
  Every \<^verbatim>\<open>register*\<close> action returns the closure
  \<^verbatim>\<open>() => get().unregister*(key)\<close>. The closure captures the key only and reads the
  store when it is called, so it is the value below and \<open>dispose\<close> runs it on the
  store of that moment.
\<close>

datatype Disposable =
    DisposePanel string
  | DisposeToolbarButton string
  | DisposeContextMenuItem string
  | DisposeStatusBarItem string
  | DisposeSettingsPage string

definition unregisterPanel ::
  "string \<Rightarrow> ('c, 'x) PluginStoreState \<Rightarrow> ('c, 'x) PluginStoreState" where
  "unregisterPanel panelId state = state\<lparr>pluginPanels := (pluginPanels state)(panelId := None)\<rparr>"

definition registerPanel ::
  "string \<Rightarrow> string \<Rightarrow> 'c \<Rightarrow> ('c, 'x) PluginStoreState
     \<Rightarrow> ('c, 'x) PluginStoreState \<times> Disposable" where
  "registerPanel pluginId panelId component state =
     (let entry = \<lparr>panel_pluginId = pluginId, panel_panelId = panelId,
                    panel_component = component, panel_visible = False\<rparr>
      in (state\<lparr>pluginPanels := (pluginPanels state)(panelId \<mapsto> entry)\<rparr>,
          DisposePanel panelId))"

definition setPanelVisible ::
  "string \<Rightarrow> bool \<Rightarrow> ('c, 'x) PluginStoreState \<Rightarrow> ('c, 'x) PluginStoreState" where
  "setPanelVisible panelId visible state =
     (case pluginPanels state panelId of
        None \<Rightarrow> state
      | Some existing \<Rightarrow>
          state\<lparr>pluginPanels :=
            (pluginPanels state)(panelId \<mapsto> existing\<lparr>panel_visible := visible\<rparr>)\<rparr>)"

definition unregisterToolbarButton ::
  "string \<Rightarrow> ('c, 'x) PluginStoreState \<Rightarrow> ('c, 'x) PluginStoreState" where
  "unregisterToolbarButton buttonId state =
     state\<lparr>pluginToolbarButtons :=
       filter (\<lambda>b. item_id b \<noteq> buttonId) (pluginToolbarButtons state)\<rparr>"

definition registerToolbarButton ::
  "'x ui_item \<Rightarrow> ('c, 'x) PluginStoreState \<Rightarrow> ('c, 'x) PluginStoreState \<times> Disposable" where
  "registerToolbarButton button state =
     (state\<lparr>pluginToolbarButtons :=
        filter (\<lambda>b. item_id b \<noteq> item_id button) (pluginToolbarButtons state) @ [button]\<rparr>,
      DisposeToolbarButton (item_id button))"

definition unregisterContextMenuItem ::
  "string \<Rightarrow> ('c, 'x) PluginStoreState \<Rightarrow> ('c, 'x) PluginStoreState" where
  "unregisterContextMenuItem itemId state =
     state\<lparr>pluginContextMenuItems :=
       filter (\<lambda>i. item_id i \<noteq> itemId) (pluginContextMenuItems state)\<rparr>"

definition registerContextMenuItem ::
  "'x ui_item \<Rightarrow> ('c, 'x) PluginStoreState \<Rightarrow> ('c, 'x) PluginStoreState \<times> Disposable" where
  "registerContextMenuItem item state =
     (state\<lparr>pluginContextMenuItems :=
        filter (\<lambda>i. item_id i \<noteq> item_id item) (pluginContextMenuItems state) @ [item]\<rparr>,
      DisposeContextMenuItem (item_id item))"

definition unregisterStatusBarItem ::
  "string \<Rightarrow> ('c, 'x) PluginStoreState \<Rightarrow> ('c, 'x) PluginStoreState" where
  "unregisterStatusBarItem itemId state =
     state\<lparr>pluginStatusBarItems :=
       filter (\<lambda>i. item_id i \<noteq> itemId) (pluginStatusBarItems state)\<rparr>"

definition registerStatusBarItem ::
  "'x ui_item \<Rightarrow> ('c, 'x) PluginStoreState \<Rightarrow> ('c, 'x) PluginStoreState \<times> Disposable" where
  "registerStatusBarItem item state =
     (state\<lparr>pluginStatusBarItems :=
        filter (\<lambda>i. item_id i \<noteq> item_id item) (pluginStatusBarItems state) @ [item]\<rparr>,
      DisposeStatusBarItem (item_id item))"

text \<open>
  \<^verbatim>\<open>updateStatusBarItem\<close> spreads a \<^verbatim>\<open>Partial<StatusBarItem>\<close> over the item whose id
  matches: a field the update carries replaces the item's, also the id.
\<close>

record 'x ui_item_update =
  update_id :: "string option"
  update_body :: "'x option"

definition mergeItem :: "'x ui_item \<Rightarrow> 'x ui_item_update \<Rightarrow> 'x ui_item" where
  "mergeItem item updates =
     \<lparr>item_id = (case update_id updates of None \<Rightarrow> item_id item | Some i \<Rightarrow> i),
      item_body = (case update_body updates of None \<Rightarrow> item_body item | Some b \<Rightarrow> b)\<rparr>"

definition updateStatusBarItem ::
  "string \<Rightarrow> 'x ui_item_update \<Rightarrow> ('c, 'x) PluginStoreState \<Rightarrow> ('c, 'x) PluginStoreState" where
  "updateStatusBarItem itemId updates state =
     state\<lparr>pluginStatusBarItems :=
       map (\<lambda>item. if item_id item = itemId then mergeItem item updates else item)
         (pluginStatusBarItems state)\<rparr>"

definition unregisterSettingsPage ::
  "string \<Rightarrow> ('c, 'x) PluginStoreState \<Rightarrow> ('c, 'x) PluginStoreState" where
  "unregisterSettingsPage pluginId state =
     state\<lparr>pluginSettingsPages := (pluginSettingsPages state)(pluginId := None)\<rparr>"

definition registerSettingsPage ::
  "string \<Rightarrow> 'c \<Rightarrow> ('c, 'x) PluginStoreState \<Rightarrow> ('c, 'x) PluginStoreState \<times> Disposable" where
  "registerSettingsPage pluginId component state =
     (let entry = \<lparr>settings_pluginId = pluginId, settings_component = component\<rparr>
      in (state\<lparr>pluginSettingsPages := (pluginSettingsPages state)(pluginId \<mapsto> entry)\<rparr>,
          DisposeSettingsPage pluginId))"

definition setInitialized ::
  "bool \<Rightarrow> ('c, 'x) PluginStoreState \<Rightarrow> ('c, 'x) PluginStoreState" where
  "setInitialized b state = state\<lparr>initialized := b\<rparr>"

definition setPluginCount ::
  "nat \<Rightarrow> ('c, 'x) PluginStoreState \<Rightarrow> ('c, 'x) PluginStoreState" where
  "setPluginCount n state = state\<lparr>pluginCount := n\<rparr>"

text \<open>Calling a disposal closure on the store as it is at the time of the call.\<close>

fun dispose :: "Disposable \<Rightarrow> ('c, 'x) PluginStoreState \<Rightarrow> ('c, 'x) PluginStoreState" where
  "dispose (DisposePanel panelId) state = unregisterPanel panelId state"
| "dispose (DisposeToolbarButton buttonId) state = unregisterToolbarButton buttonId state"
| "dispose (DisposeContextMenuItem itemId) state = unregisterContextMenuItem itemId state"
| "dispose (DisposeStatusBarItem itemId) state = unregisterStatusBarItem itemId state"
| "dispose (DisposeSettingsPage pluginId) state = unregisterSettingsPage pluginId state"

section \<open>JavaScript strings and numbers\<close>

text \<open>
  Chapter indices, CFI steps and timestamps are JavaScript numbers, that is, doubles.
  The numbers this code computes with are integers or infinite, and such a number
  is modelled by the \<open>int\<close> it is equal to; an \<open>int\<close> of magnitude \<open>2 ^ 1024\<close>
  stands for \<^verbatim>\<open>Infinity\<close> (with its sign). Arithmetic rounds its exact result to the
  nearest double, ties to the even significand, and overflows to \<^verbatim>\<open>Infinity\<close>.
  A \<open>string\<close> holds the characters of a JavaScript string that the code inspects by
  value (\<^verbatim>\<open>/\<close>, \<^verbatim>\<open>:\<close>, digits, ASCII letters).
\<close>

fun bitLength :: "nat \<Rightarrow> nat" where
  "bitLength n = (if n = 0 then 0 else Suc (bitLength (n div 2)))"

declare bitLength.simps [simp del]

text \<open>
  The double nearest to a natural number: exact below \<open>2 ^ 53\<close>; above, the number
  is cut to its 53 leading bits and rounded on the bits cut off.
\<close>

definition nearestDouble :: "nat \<Rightarrow> nat" where
  "nearestDouble x =
     (if x < 2 ^ 53 then x
      else (let e = bitLength x - 53;
                q = x div 2 ^ e;
                r = x mod 2 ^ e;
                half = 2 ^ (e - 1)
            in (if r > half \<or> (r = half \<and> odd q) then q + 1 else q) * 2 ^ e))"

definition toDoubleNat :: "nat \<Rightarrow> nat" where
  "toDoubleNat x = (if nearestDouble x \<ge> 2 ^ 1024 then 2 ^ 1024 else nearestDouble x)"

definition toDouble :: "int \<Rightarrow> int" where
  "toDouble x = (if x < 0 then - int (toDoubleNat (nat (- x))) else int (toDoubleNat (nat x)))"

text \<open>\<^verbatim>\<open>a + b\<close>, \<^verbatim>\<open>a - b\<close> and \<^verbatim>\<open>a * b\<close> on such numbers.\<close>

definition jsAdd :: "int \<Rightarrow> int \<Rightarrow> int" where
  "jsAdd a b = toDouble (a + b)"

definition jsSub :: "int \<Rightarrow> int \<Rightarrow> int" where
  "jsSub a b = toDouble (a - b)"

definition jsMul :: "int \<Rightarrow> int \<Rightarrow> int" where
  "jsMul a b = toDouble (a * b)"

text \<open>
  \<^verbatim>\<open>Math.floor(x / 2)\<close> for \<open>x \<ge> 0\<close>: halving a double is exact, and half of
  \<^verbatim>\<open>Infinity\<close> is \<^verbatim>\<open>Infinity\<close>.
\<close>

definition floorHalf :: "int \<Rightarrow> int" where
  "floorHalf x = (if x \<ge> 2 ^ 1024 then x else x div 2)"

definition digitChar :: "nat \<Rightarrow> char" where
  "digitChar d = char_of (48 + d)"

definition isDigit :: "char \<Rightarrow> bool" where
  "isDigit c = (48 \<le> (of_char c :: nat) \<and> (of_char c :: nat) \<le> 57)"

definition digitValue :: "char \<Rightarrow> nat" where
  "digitValue c = of_char c - 48"

text \<open>The decimal digits of a natural number.\<close>

fun natToString :: "nat \<Rightarrow> string" where
  "natToString n = (if n < 10 then [digitChar n] else natToString (n div 10) @ [digitChar (n mod 10)])"

declare natToString.simps [simp del]

text \<open>
  \<^verbatim>\<open>Number::toString\<close>, which a template literal applies. For a finite \<open>x > 0\<close> it
  takes \<open>n\<close>, the least \<open>k\<close> and a \<open>k\<close>-digit \<open>s\<close> such that \<open>s * 10 ^ (n - k)\<close> is
  \<open>x\<close> as a double (of two such \<open>s\<close> the one nearer to \<open>x\<close>, of two equally near the
  even one), and prints \<open>s\<close> followed by \<open>n - k\<close> zeros when \<open>n \<le> 21\<close> and in exponent
  notation otherwise. Here \<open>n\<close> is the number of decimal digits of \<open>x\<close>, except where
  the power of ten above \<open>x\<close> is \<open>x\<close> as a double: then \<open>s = 1\<close> with one more for
  \<open>n\<close>, which happens from \<open>1e23\<close> on only, the powers of ten up to \<open>1e22\<close> being
  doubles. Up to \<open>2 ^ 53\<close> the integers are doubles of their own, so the result is the
  decimal digits of \<open>x\<close>. A number that is no double does not reach this function; its
  digits are printed.
\<close>

definition candidateDigits :: "nat \<Rightarrow> nat \<Rightarrow> nat \<Rightarrow> nat option" where
  "candidateDigits x n k =
     (let m = n - k;
          lo = x div 10 ^ m;
          hi = lo + 1;
          okLo = (10 ^ (k - 1) \<le> lo \<and> toDoubleNat (lo * 10 ^ m) = x);
          okHi = (hi < 10 ^ k \<and> toDoubleNat (hi * 10 ^ m) = x)
      in if okLo \<and> okHi
         then Some (if x - lo * 10 ^ m < hi * 10 ^ m - x then lo
                    else if hi * 10 ^ m - x < x - lo * 10 ^ m then hi
                    else if even lo then lo else hi)
         else if okLo then Some lo
         else if okHi then Some hi
         else None)"

fun firstDigits :: "nat \<Rightarrow> nat \<Rightarrow> nat list \<Rightarrow> (nat \<times> nat) option" where
  "firstDigits x n [] = None"
| "firstDigits x n (k # ks) =
     (case candidateDigits x n k of Some s \<Rightarrow> Some (k, s) | None \<Rightarrow> firstDigits x n ks)"

definition natNumberToString :: "nat \<Rightarrow> string" where
  "natNumberToString x =
     (if x \<ge> 2 ^ 1024 then ''Infinity''
      else if x \<le> 2 ^ 53 then natToString x
      else (let n = length (natToString x) in
            if n \<le> 21
            then (case firstDigits x n [1 ..< Suc n] of
                    None \<Rightarrow> natToString x
                  | Some (k, s) \<Rightarrow> natToString s @ replicate (n - k) (CHR ''0''))
            else if toDoubleNat (10 ^ n) = x then ''1e+'' @ natToString n
            else (case firstDigits x n [1 ..< Suc n] of
                    None \<Rightarrow> natToString x
                  | Some (k, s) \<Rightarrow>
                      (let ds = natToString s in
                       take 1 ds @ (if k = 1 then [] else CHR ''.'' # drop 1 ds)
                         @ ''e+'' @ natToString (n - 1)))))"

definition numberToString :: "int \<Rightarrow> string" where
  "numberToString i =
     (if i < 0 then CHR ''-'' # natNumberToString (nat (- i)) else natNumberToString (nat i))"

text \<open>
  \<^verbatim>\<open>parseInt(s, 10)\<close> on a string of decimal digits (what \<^verbatim>\<open>(\d+)\<close> captures): the
  integer the digits denote, which \<open>extractSectionIndexFromCFI\<close> then holds as a
  double. (Past the twentieth significant digit an implementation may read a digit
  as \<open>0\<close>; the digits are read exactly here.)
\<close>

definition parseInt10 :: "string \<Rightarrow> nat" where
  "parseInt10 s = foldl (\<lambda>acc c. 10 * acc + digitValue c) 0 s"

text \<open>
  \<^verbatim>\<open>cfi.match(/\/6\/(\d+)/)\<close>: the leftmost position where \<^verbatim>\<open>/6/\<close> is followed by at
  least one digit; the capture group is the longest run of digits there. \<open>None\<close> is
  the \<^verbatim>\<open>null\<close> of no match.
\<close>

fun matchSpineStep :: "string \<Rightarrow> string option" where
  "matchSpineStep [] = None"
| "matchSpineStep (c # cs) =
     (if c = CHR ''/'' \<and> take 2 cs = ''6/'' \<and> takeWhile isDigit (drop 2 cs) \<noteq> []
      then Some (takeWhile isDigit (drop 2 cs))
      else matchSpineStep cs)"

text \<open>
  Splitting a sequence at every element that satisfies \<open>p\<close>: \<^verbatim>\<open>s.split(sep)\<close> for a
  one-character separator is \<open>splitOn\<close>.
\<close>

fun splitWhen :: "('a \<Rightarrow> bool) \<Rightarrow> 'a list \<Rightarrow> 'a list list" where
  "splitWhen p [] = [[]]"
| "splitWhen p (c # cs) =
     (if p c then [] # splitWhen p cs
      else (case splitWhen p cs of [] \<Rightarrow> [[c]] | w # ws \<Rightarrow> (c # w) # ws))"

definition splitOn :: "char \<Rightarrow> string \<Rightarrow> string list" where
  "splitOn sep s = splitWhen (\<lambda>c. c = sep) s"

text \<open>
  The text content of a document is counted in words, and white space outside ASCII
  separates words too, so a text is kept as the sequence of its UTF-16 code units.
  \<open>isSpace\<close> is the class \<^verbatim>\<open>\s\<close> of a regular expression: tab, line feed, vertical
  tab, form feed, carriage return, space, no-break space, U+1680, U+2000 to U+200A,
  the line and paragraph separators, U+202F, U+205F, U+3000 and U+FEFF.
\<close>

type_synonym CodeUnits = "nat list"

definition isSpace :: "nat \<Rightarrow> bool" where
  "isSpace u =
     (u \<in> {9, 10, 11, 12, 13, 32, 160, 5760, 8232, 8233, 8239, 8287, 12288, 65279}
      \<or> (8192 \<le> u \<and> u \<le> 8202))"

text \<open>
  \<^verbatim>\<open>text.split(/\s+/).filter(Boolean).length\<close>: the number of maximal runs of
  code units that are not white space. Splitting at each white-space unit instead of
  at each run only adds empty pieces, which \<^verbatim>\<open>filter(Boolean)\<close> drops.
\<close>

definition countWords :: "CodeUnits \<Rightarrow> nat" where
  "countWords s = length (filter (\<lambda>w. w \<noteq> []) (splitWhen isSpace s))"

text \<open>\<^verbatim>\<open>s.toLowerCase()\<close> on ASCII letters.\<close>

definition toLowerCase :: "string \<Rightarrow> string" where
  "toLowerCase s =
     map (\<lambda>c. if 65 \<le> (of_char c :: nat) \<and> (of_char c :: nat) \<le> 90
              then char_of ((of_char c :: nat) + 32) else c) s"

text \<open>Truthiness of an optional string and of an optional number.\<close>

definition truthyString :: "string option \<Rightarrow> bool" where
  "truthyString v = (case v of None \<Rightarrow> False | Some s \<Rightarrow> s \<noteq> [])"

definition truthyNumber :: "int option \<Rightarrow> bool" where
  "truthyNumber v = (case v of None \<Rightarrow> False | Some n \<Rightarrow> n \<noteq> 0)"

text \<open>\<^verbatim>\<open>xs[i]\<close>, which is \<^verbatim>\<open>undefined\<close> outside the array.\<close>

definition elementAt :: "'a list \<Rightarrow> int \<Rightarrow> 'a option" where
  "elementAt xs i = (if 0 \<le> i \<and> i < int (length xs) then Some (xs ! nat i) else None)"

text \<open>\<^verbatim>\<open>xs.findIndex(p)\<close>; \<open>None\<close> is the \<^verbatim>\<open>-1\<close> of no match.\<close>

fun findIndex :: "('a \<Rightarrow> bool) \<Rightarrow> 'a list \<Rightarrow> nat option" where
  "findIndex p [] = None"
| "findIndex p (x # xs) =
     (if p x then Some 0 else (case findIndex p xs of None \<Rightarrow> None | Some i \<Rightarrow> Some (Suc i)))"

section \<open>typeMappers: annotation types and CFI helpers\<close>

datatype BookNoteType = Bookmark | Annotation | Excerpt

datatype SDKAnnotationType = Footnote | Highlight | Comment | Sidebar

text \<open>
  The \<^verbatim>\<open>default\<close> branches of the two switches answer a value outside the declared
  union; the datatypes have no such value.
\<close>

fun mapReadestNoteTypeToSDK :: "BookNoteType \<Rightarrow> SDKAnnotationType" where
  "mapReadestNoteTypeToSDK Bookmark = Sidebar"
| "mapReadestNoteTypeToSDK Annotation = Highlight"
| "mapReadestNoteTypeToSDK Excerpt = Comment"

fun mapSDKTypeToReadestNoteType :: "SDKAnnotationType \<Rightarrow> BookNoteType" where
  "mapSDKTypeToReadestNoteType Sidebar = Bookmark"
| "mapSDKTypeToReadestNoteType Highlight = Annotation"
| "mapSDKTypeToReadestNoteType Footnote = Annotation"
| "mapSDKTypeToReadestNoteType Comment = Excerpt"

definition extractSectionIndexFromCFI :: "string \<Rightarrow> int" where
  "extractSectionIndexFromCFI cfi =
     (if cfi = [] then 0
      else (case matchSpineStep cfi of
              None \<Rightarrow> 0
            | Some digits \<Rightarrow>
                if digits \<noteq> []
                then (let step = toDouble (int (parseInt10 digits))
                      in max 0 (jsSub (floorHalf step) 1))
                else 0))"

section \<open>typeMappers: BookNote and SDK Annotation\<close>

text \<open>
  \<^verbatim>\<open>BookNote\<close> of \<^verbatim>\<open>@/types/book\<close>, with the fields the plugin layer reads or
  writes. Timestamps are epoch milliseconds. \<^verbatim>\<open>deletedAt\<close> is absent (or \<^verbatim>\<open>null\<close>) on
  a live note.
\<close>

record BookNote =
  note_id :: string
  note_bookHash :: "string option"
  note_type :: BookNoteType
  note_cfi :: string
  note_text :: "string option"
  note_note :: string
  note_style :: "string option"
  note_color :: "string option"
  note_createdAt :: int
  note_updatedAt :: int
  note_deletedAt :: "int option"

text \<open>
  \<^verbatim>\<open>new Date(ms).toISOString()\<close>: the ISO-8601 text of an instant, kept as the instant
  it denotes. A \<^verbatim>\<open>Date\<close> holds time values of at most \<open>8.64e15\<close> milliseconds either
  side of the epoch; for any other number the date is invalid and
  \<^verbatim>\<open>toISOString\<close> throws a \<^verbatim>\<open>RangeError\<close>.
\<close>

datatype ISOString = ToISOString int

datatype AnnotationError = InvalidTimeValue

definition validTimeValue :: "int \<Rightarrow> bool" where
  "validTimeValue ms = (\<bar>ms\<bar> \<le> 8640000000000000)"

definition toISOString :: "int \<Rightarrow> AnnotationError + ISOString" where
  "toISOString ms = (if validTimeValue ms then Inr (ToISOString ms) else Inl InvalidTimeValue)"

record AnnotationMetadata =
  meta_cfi :: string
  meta_readestNoteType :: BookNoteType
  meta_bookHash :: "string option"

record SDKAnnotation =
  ann_id :: string
  ann_pluginId :: string
  ann_chapterIndex :: int
  ann_startOffset :: int
  ann_endOffset :: int
  ann_type :: SDKAnnotationType
  ann_content :: string
  ann_style :: "string option"
  ann_metadata :: AnnotationMetadata
  ann_createdAt :: ISOString
  ann_updatedAt :: ISOString

text \<open>
  \<^verbatim>\<open>NewAnnotation\<close> of the SDK, with the fields \<^verbatim>\<open>mapSDKAnnotationToBookNote\<close> reads.
  \<^verbatim>\<open>metadata\<close> is an optional record of free-form entries, of which only the string
  under \<^verbatim>\<open>cfi\<close> is read.
\<close>

record SDKNewAnnotation =
  new_chapterIndex :: int
  new_type :: SDKAnnotationType
  new_content :: string
  new_style :: "string option"
  new_metadata :: "(string \<rightharpoonup> string) option"

text \<open>
  The object literal is evaluated field by field, so the first invalid time stamp
  throws and no annotation is built.
\<close>

definition mapBookNoteToSDKAnnotation :: "BookNote \<Rightarrow> string \<Rightarrow> AnnotationError + SDKAnnotation" where
  "mapBookNoteToSDKAnnotation note pluginId =
     (let chapterIndex = extractSectionIndexFromCFI (note_cfi note) in
      (case toISOString (note_createdAt note) of
         Inl e \<Rightarrow> Inl e
       | Inr createdAt \<Rightarrow>
           (case toISOString (note_updatedAt note) of
              Inl e \<Rightarrow> Inl e
            | Inr updatedAt \<Rightarrow>
                Inr \<lparr>ann_id = note_id note,
                     ann_pluginId = pluginId,
                     ann_chapterIndex = chapterIndex,
                     ann_startOffset = 0,
                     ann_endOffset = 0,
                     ann_type = mapReadestNoteTypeToSDK (note_type note),
                     ann_content = (case note_text note of Some t \<Rightarrow> t | None \<Rightarrow> note_note note),
                     ann_style =
                       (if truthyString (note_style note) \<and> truthyString (note_color note)
                        then Some (the (note_style note) @ '':'' @ the (note_color note))
                        else (case note_style note of Some st \<Rightarrow> Some st | None \<Rightarrow> note_color note)),
                     ann_metadata =
                       \<lparr>meta_cfi = note_cfi note, meta_readestNoteType = note_type note,
                        meta_bookHash = note_bookHash note\<rparr>,
                     ann_createdAt = createdAt,
                     ann_updatedAt = updatedAt\<rparr>)))"

text \<open>
  \<^verbatim>\<open>xs.map(f)\<close> for an \<open>f\<close> that may throw: the first exception leaves the \<^verbatim>\<open>map\<close>
  and nothing is returned.
\<close>

fun mapOrThrow :: "('a \<Rightarrow> 'e + 'b) \<Rightarrow> 'a list \<Rightarrow> 'e + 'b list" where
  "mapOrThrow f [] = Inr []"
| "mapOrThrow f (x # xs) =
     (case f x of
        Inl e \<Rightarrow> Inl e
      | Inr y \<Rightarrow> (case mapOrThrow f xs of Inl e \<Rightarrow> Inl e | Inr ys \<Rightarrow> Inr (y # ys)))"

text \<open>
  The style string of a new annotation, parsed back into \<^verbatim>\<open>style\<close> and \<^verbatim>\<open>color\<close>.
\<close>

definition parseStyle :: "string option \<Rightarrow> string option \<times> string option" where
  "parseStyle st =
     (if truthyString st
      then (let parts = splitOn CHR '':'' (the st) in
            if length parts = 2 then (Some (parts ! 0), Some (parts ! 1))
            else (Some ''highlight'', st))
      else (None, None))"

text \<open>\<^verbatim>\<open>annotation.metadata?.['cfi']\<close>\<close>

definition metadataCfi :: "SDKNewAnnotation \<Rightarrow> string option" where
  "metadataCfi annotation =
     (case new_metadata annotation of None \<Rightarrow> None | Some m \<Rightarrow> m ''cfi'')"

text \<open>
  \<open>now\<close> is the value \<^verbatim>\<open>Date.now()\<close> returns and \<open>rnd\<close> the text
  \<^verbatim>\<open>Math.random().toString(36).substring(2, 8)\<close>; \<open>cfi\<close> is the optional third
  argument.
\<close>

definition mapSDKAnnotationToBookNote ::
  "SDKNewAnnotation \<Rightarrow> string option \<Rightarrow> string option \<Rightarrow> int \<Rightarrow> string \<Rightarrow> BookNote" where
  "mapSDKAnnotationToBookNote annotation bookHash cfi now rnd =
     (let noteType = mapSDKTypeToReadestNoteType (new_type annotation);
          ident = ''plugin-'' @ numberToString now @ ''-'' @ rnd;
          (style, color) = parseStyle (new_style annotation);
          resolvedCFI =
            (case cfi of
               Some c \<Rightarrow> c
             | None \<Rightarrow>
                 (case metadataCfi annotation of
                    Some c \<Rightarrow> c
                  | None \<Rightarrow>
                      ''epubcfi(/6/''
                        @ numberToString (jsMul (jsAdd (new_chapterIndex annotation) 1) 2)
                        @ ''!)''))
      in \<lparr>note_id = ident,
          note_bookHash = bookHash,
          note_type = noteType,
          note_cfi = resolvedCFI,
          note_text = Some (new_content annotation),
          note_note = [],
          note_style = style,
          note_color = color,
          note_createdAt = now,
          note_updatedAt = now,
          note_deletedAt = None\<rparr>)"

section \<open>The host's stores\<close>

text \<open>
  What the accessors of \<^verbatim>\<open>ReadestHostAPIProvider\<close> read through
  \<^verbatim>\<open>useBookDataStore.getState()\<close> and \<^verbatim>\<open>useReaderStore.getState()\<close>, and the book key
  the injected \<^verbatim>\<open>bookKeyAccessor\<close> returns. A book's \<^verbatim>\<open>metadata\<close> object is only
  handed to helpers of \<^verbatim>\<open>@/utils/book\<close>, so its type is a parameter.
\<close>

record 'm ReadestBook =
  book_hash :: string
  book_title :: string
  book_author :: string
  book_filePath :: "string option"
  book_format :: string
  book_metadata :: "'m option"

record BookConfig =
  config_booknotes :: "BookNote list option"

text \<open>
  The DOM \<^verbatim>\<open>Document\<close> that \<^verbatim>\<open>section.createDocument()\<close> resolves to, as far as
  \<^verbatim>\<open>mapSectionToSDKChapter\<close> reads it: \<^verbatim>\<open>documentElement?.outerHTML\<close> and
  \<^verbatim>\<open>body?.textContent\<close>. The document engine is outside this code; a section holds
  the document its \<^verbatim>\<open>createDocument\<close> yields.
\<close>

record SectionDocument =
  doc_outerHTML :: "string option"
  doc_textContent :: "CodeUnits option"

record SectionItem =
  section_id :: "string option"
  section_href :: "string option"
  section_createDocument :: SectionDocument

datatype TOCItem = TOCItem (toc_id: int) (toc_label: string) (toc_href: string) (toc_subitems: "TOCItem list")

record BookDoc =
  doc_sections :: "SectionItem list option"
  doc_toc :: "TOCItem list option"

record 'm BookData =
  data_book :: "'m ReadestBook option"
  data_config :: "BookConfig option"
  data_bookDoc :: "BookDoc option"

text \<open>
  The \<^verbatim>\<open>FoliateView\<close> of a book key, as far as the annotation provider drives it: the
  calls of \<^verbatim>\<open>addAnnotation(note, remove)\<close> that went through, and whether the call
  throws.
\<close>

record FoliateView =
  view_addAnnotationCalls :: "(BookNote \<times> bool) list"
  view_addAnnotationThrows :: bool

record ViewState =
  view_progress_sectionId :: "int option"
  view_view :: "FoliateView option"

record 'm Host =
  host_activeBookKey :: "string option"
  host_booksData :: "string \<rightharpoonup> 'm BookData"
  host_viewStates :: "string \<rightharpoonup> ViewState"
  host_savedConfigs :: "(string \<times> BookConfig) list"

text \<open>
  Modelled from the spec: the actions \<^verbatim>\<open>getBookData\<close>, \<^verbatim>\<open>getConfig\<close>,
  \<^verbatim>\<open>updateBooknotes\<close> and \<^verbatim>\<open>saveConfig\<close> of \<^verbatim>\<open>useBookDataStore\<close>
  (\<^verbatim>\<open>@/store/bookDataStore\<close>), whose source is not among these files. They follow the
  accessor interfaces' documentation: \<^verbatim>\<open>getConfig\<close> gets the config of a book key (or
  \<^verbatim>\<open>null\<close>); \<^verbatim>\<open>updateBooknotes\<close> updates the \<^verbatim>\<open>booknotes\<close> array for a book
  key and returns the updated config (\<^verbatim>\<open>undefined\<close> when the store has no config for the
  key); \<^verbatim>\<open>saveConfig\<close> saves the config to disk.
\<close>

definition getBookData :: "'m Host \<Rightarrow> string \<Rightarrow> 'm BookData option" where
  "getBookData host key = host_booksData host key"

definition getConfig :: "'m Host \<Rightarrow> string \<Rightarrow> BookConfig option" where
  "getConfig host key =
     (case host_booksData host key of None \<Rightarrow> None | Some d \<Rightarrow> data_config d)"

definition updateBooknotes ::
  "string \<Rightarrow> BookNote list \<Rightarrow> 'm Host \<Rightarrow> 'm Host \<times> BookConfig option" where
  "updateBooknotes key notes host =
     (case host_booksData host key of
        None \<Rightarrow> (host, None)
      | Some d \<Rightarrow>
          (case data_config d of
             None \<Rightarrow> (host, None)
           | Some config \<Rightarrow>
               (let updated = config\<lparr>config_booknotes := Some notes\<rparr> in
                (host\<lparr>host_booksData :=
                   (host_booksData host)(key \<mapsto> d\<lparr>data_config := Some updated\<rparr>)\<rparr>,
                 Some updated))))"

definition saveConfig :: "string \<Rightarrow> BookConfig \<Rightarrow> 'm Host \<Rightarrow> 'm Host" where
  "saveConfig bookKey config host =
     host\<lparr>host_savedConfigs := host_savedConfigs host @ [(bookKey, config)]\<rparr>"

text \<open>
  The accessors \<^verbatim>\<open>getProgress\<close>, \<^verbatim>\<open>getView\<close> and \<^verbatim>\<open>getBookHash\<close> that
  \<^verbatim>\<open>_createBookStoreAccessors\<close> and \<^verbatim>\<open>_createAnnotationStoreAccessors\<close> build.
\<close>

definition getProgress :: "'m Host \<Rightarrow> string \<Rightarrow> int option" where
  "getProgress host key =
     (case host_viewStates host key of None \<Rightarrow> None | Some vs \<Rightarrow> view_progress_sectionId vs)"

definition getView :: "'m Host \<Rightarrow> string \<Rightarrow> FoliateView option" where
  "getView host key =
     (case host_viewStates host key of None \<Rightarrow> None | Some vs \<Rightarrow> view_view vs)"

definition getBookHash :: "'m Host \<Rightarrow> string \<Rightarrow> string option" where
  "getBookHash host key =
     (case getBookData host key of
        None \<Rightarrow> None
      | Some d \<Rightarrow> (case data_book d of None \<Rightarrow> None | Some b \<Rightarrow> Some (book_hash b)))"

text \<open>
  \<^verbatim>\<open>try { view.addAnnotation(note, remove) } catch { }\<close> on the view of a book key, when
  there is one: a call that throws leaves the host as it is.
\<close>

definition renderAnnotation :: "string \<Rightarrow> BookNote \<Rightarrow> bool \<Rightarrow> 'm Host \<Rightarrow> 'm Host" where
  "renderAnnotation key note remove host =
     (case host_viewStates host key of
        None \<Rightarrow> host
      | Some vs \<Rightarrow>
          (case view_view vs of
             None \<Rightarrow> host
           | Some view \<Rightarrow>
               if view_addAnnotationThrows view then host
               else host\<lparr>host_viewStates := (host_viewStates host)(key \<mapsto>
                      vs\<lparr>view_view := Some (view\<lparr>view_addAnnotationCalls :=
                        view_addAnnotationCalls view @ [(note, remove)]\<rparr>)\<rparr>)\<rparr>))"

section \<open>ReadestAnnotationDataProvider\<close>

text \<open>
  The provider keeps the book key and the plugin id it was constructed with
  (\<^verbatim>\<open>private readonly\<close>); every method reads the stores at the time of the call and
  returns the host as the call leaves it.
\<close>

record ReadestAnnotationDataProvider =
  ap_bookKey :: string
  ap_pluginId :: string

definition getAnnotations ::
  "ReadestAnnotationDataProvider \<Rightarrow> int option \<Rightarrow> 'm Host
     \<Rightarrow> AnnotationError + SDKAnnotation list" where
  "getAnnotations this chapterIndex host =
     (case getConfig host (ap_bookKey this) of
        None \<Rightarrow> Inr []
      | Some config \<Rightarrow>
          (case config_booknotes config of
             None \<Rightarrow> Inr []
           | Some booknotes \<Rightarrow>
               (let activeNotes = filter (\<lambda>note. \<not> truthyNumber (note_deletedAt note)) booknotes in
                (case mapOrThrow (\<lambda>note. mapBookNoteToSDKAnnotation note (ap_pluginId this))
                        activeNotes of
                   Inl e \<Rightarrow> Inl e
                 | Inr annotations \<Rightarrow>
                     (case chapterIndex of
                        Some ci \<Rightarrow> Inr (filter (\<lambda>a. ann_chapterIndex a = ci) annotations)
                      | None \<Rightarrow> Inr annotations)))))"

text \<open>\<^verbatim>\<open>config?.booknotes ?? []\<close>\<close>

definition existingNotes :: "'m Host \<Rightarrow> string \<Rightarrow> BookNote list" where
  "existingNotes host key =
     (case getConfig host key of
        None \<Rightarrow> []
      | Some config \<Rightarrow> (case config_booknotes config of None \<Rightarrow> [] | Some ns \<Rightarrow> ns))"

text \<open>The tail shared by the three writers: persist when the store returned a config.\<close>

definition persist :: "string \<Rightarrow> BookConfig option \<Rightarrow> 'm Host \<Rightarrow> 'm Host" where
  "persist key updatedConfig host =
     (case updatedConfig of None \<Rightarrow> host | Some config \<Rightarrow> saveConfig key config host)"

text \<open>
  \<^verbatim>\<open>createAnnotation\<close> maps the new note back for its result after the note is
  stored, rendered and saved: those effects stay when the mapping throws.
\<close>

definition createAnnotation ::
  "ReadestAnnotationDataProvider \<Rightarrow> SDKNewAnnotation \<Rightarrow> int \<Rightarrow> string \<Rightarrow> 'm Host
     \<Rightarrow> (AnnotationError + SDKAnnotation) \<times> 'm Host" where
  "createAnnotation this annotation now rnd host =
     (let bookHash = getBookHash host (ap_bookKey this);
          newNote = mapSDKAnnotationToBookNote annotation bookHash None now rnd;
          updatedNotes = existingNotes host (ap_bookKey this) @ [newNote];
          (host1, updatedConfig) = updateBooknotes (ap_bookKey this) updatedNotes host;
          host2 = renderAnnotation (ap_bookKey this) newNote False host1;
          host3 = persist (ap_bookKey this) updatedConfig host2
      in (mapBookNoteToSDKAnnotation newNote (ap_pluginId this), host3))"

text \<open>
  \<^verbatim>\<open>createAnnotations\<close> maps every new annotation with a clock reading and a random
  suffix of its own, given here with the annotation.
\<close>

definition createAnnotations ::
  "ReadestAnnotationDataProvider \<Rightarrow> (SDKNewAnnotation \<times> int \<times> string) list \<Rightarrow> 'm Host
     \<Rightarrow> (AnnotationError + SDKAnnotation list) \<times> 'm Host" where
  "createAnnotations this annotations host =
     (let bookHash = getBookHash host (ap_bookKey this);
          newNotes = map (\<lambda>(a, now, rnd). mapSDKAnnotationToBookNote a bookHash None now rnd)
                       annotations;
          updatedNotes = existingNotes host (ap_bookKey this) @ newNotes;
          (host1, updatedConfig) = updateBooknotes (ap_bookKey this) updatedNotes host;
          host2 = foldl (\<lambda>h note. renderAnnotation (ap_bookKey this) note False h) host1 newNotes;
          host3 = persist (ap_bookKey this) updatedConfig host2
      in (mapOrThrow (\<lambda>note. mapBookNoteToSDKAnnotation note (ap_pluginId this)) newNotes,
          host3))"

text \<open>
  \<^verbatim>\<open>deleteAnnotation\<close> reads the clock twice, for \<^verbatim>\<open>deletedAt\<close> and for
  \<^verbatim>\<open>updatedAt\<close>. The view is asked to remove the note as it was before the stamp.
\<close>

definition deleteAnnotation ::
  "ReadestAnnotationDataProvider \<Rightarrow> string \<Rightarrow> int \<Rightarrow> int \<Rightarrow> 'm Host \<Rightarrow> 'm Host" where
  "deleteAnnotation this annotationId nowDeleted nowUpdated host =
     (case getConfig host (ap_bookKey this) of
        None \<Rightarrow> host
      | Some config \<Rightarrow>
          (case config_booknotes config of
             None \<Rightarrow> host
           | Some booknotes \<Rightarrow>
               (case findIndex (\<lambda>n. note_id n = annotationId) booknotes of
                  None \<Rightarrow> host
                | Some noteIndex \<Rightarrow>
                    (let note = elementAt booknotes (int noteIndex);
                         updatedNotes =
                           (case note of
                              None \<Rightarrow> booknotes
                            | Some n \<Rightarrow>
                                booknotes[noteIndex :=
                                  n\<lparr>note_deletedAt := Some nowDeleted,
                                    note_updatedAt := nowUpdated\<rparr>]);
                         (host1, updatedConfig) =
                           updateBooknotes (ap_bookKey this) updatedNotes host;
                         host2 =
                           (case note of
                              None \<Rightarrow> host1
                            | Some n \<Rightarrow> renderAnnotation (ap_bookKey this) n True host1)
                     in persist (ap_bookKey this) updatedConfig host2))))"

section \<open>ReadestBookDataProvider\<close>

datatype BookError =
    BookDocumentNotAvailable
  | ChapterIndexOutOfRange int int
  | SectionUndefined int

record SDKChapter =
  chapter_index :: int
  chapter_title :: string
  chapter_href :: string
  chapter_html :: string
  chapter_text :: CodeUnits
  chapter_wordCount :: nat

record SDKChapterSummary =
  summary_index :: int
  summary_title :: string
  summary_href :: string
  summary_wordCount :: nat

record 'sm SDKBook =
  sdk_id :: string
  sdk_title :: string
  sdk_author :: string
  sdk_filePath :: string
  sdk_format :: string
  sdk_metadata :: 'sm

text \<open>
  \<^verbatim>\<open>mapReadestBookToSDK\<close>. The \<^verbatim>\<open>metadata\<close> object of the result is assembled by
  \<^verbatim>\<open>getPrimaryLanguage\<close>, \<^verbatim>\<open>formatPublisher\<close>, \<^verbatim>\<open>formatDescription\<close> and
  \<^verbatim>\<open>formatTitle\<close> of \<^verbatim>\<open>@/utils/book\<close>, which are not among these files; it is the
  parameter \<open>metadataOf\<close> applied to the book.
\<close>

definition mapReadestBookToSDK :: "('m ReadestBook \<Rightarrow> 'sm) \<Rightarrow> 'm ReadestBook \<Rightarrow> 'sm SDKBook" where
  "mapReadestBookToSDK metadataOf book =
     \<lparr>sdk_id = book_hash book,
      sdk_title = book_title book,
      sdk_author = book_author book,
      sdk_filePath = (case book_filePath book of None \<Rightarrow> [] | Some fp \<Rightarrow> fp),
      sdk_format = toLowerCase (book_format book),
      sdk_metadata = metadataOf book\<rparr>"

definition mapSectionToSDKChapter ::
  "int \<Rightarrow> SectionItem \<Rightarrow> SectionDocument \<Rightarrow> string \<Rightarrow> SDKChapter" where
  "mapSectionToSDKChapter index section doc title =
     (let html = (case doc_outerHTML doc of None \<Rightarrow> [] | Some h \<Rightarrow> h);
          txt = (case doc_textContent doc of None \<Rightarrow> [] | Some t \<Rightarrow> t);
          wordCount = countWords txt
      in \<lparr>chapter_index = index,
          chapter_title = title,
          chapter_href = (case section_href section of None \<Rightarrow> [] | Some h \<Rightarrow> h),
          chapter_html = html,
          chapter_text = txt,
          chapter_wordCount = wordCount\<rparr>)"

definition mapTOCToChapterSummaries :: "TOCItem list \<Rightarrow> SDKChapterSummary list" where
  "mapTOCToChapterSummaries tocItems =
     map (\<lambda>item. \<lparr>summary_index = toc_id item, summary_title = toc_label item,
                   summary_href = toc_href item, summary_wordCount = 0\<rparr>) tocItems"

fun flattenTOC :: "TOCItem list \<Rightarrow> TOCItem list" where
  "flattenTOC [] = []"
| "flattenTOC (TOCItem i l h subitems # items) =
     TOCItem i l h subitems # flattenTOC subitems @ flattenTOC items"

record ReadestBookDataProvider =
  bp_bookKey :: string

definition findTitleForSection :: "int \<Rightarrow> BookDoc \<Rightarrow> string" where
  "findTitleForSection sectionIndex bookDoc =
     (case doc_toc bookDoc of
        None \<Rightarrow> ''Section '' @ numberToString (jsAdd sectionIndex 1)
      | Some toc \<Rightarrow>
          (case find (\<lambda>t. toc_id t = sectionIndex) (flattenTOC toc) of
             None \<Rightarrow> ''Section '' @ numberToString (jsAdd sectionIndex 1)
           | Some item \<Rightarrow> toc_label item))"

definition loadChapter :: "int \<Rightarrow> SectionItem \<Rightarrow> BookDoc \<Rightarrow> SDKChapter" where
  "loadChapter index section bookDoc =
     (let doc = section_createDocument section;
          title = findTitleForSection index bookDoc
      in mapSectionToSDKChapter index section doc title)"

text \<open>\<^verbatim>\<open>data?.bookDoc?.sections\<close> together with the document it belongs to.\<close>

definition sectionsOf :: "'m BookData option \<Rightarrow> (BookDoc \<times> SectionItem list) option" where
  "sectionsOf data =
     (case data of
        None \<Rightarrow> None
      | Some d \<Rightarrow>
          (case data_bookDoc d of
             None \<Rightarrow> None
           | Some bookDoc \<Rightarrow>
               (case doc_sections bookDoc of
                  None \<Rightarrow> None
                | Some sections \<Rightarrow> Some (bookDoc, sections))))"

definition getCurrentBook ::
  "('m ReadestBook \<Rightarrow> 'sm) \<Rightarrow> ReadestBookDataProvider \<Rightarrow> 'm Host \<Rightarrow> 'sm SDKBook option" where
  "getCurrentBook metadataOf this host =
     (case getBookData host (bp_bookKey this) of
        None \<Rightarrow> None
      | Some d \<Rightarrow>
          (case data_book d of
             None \<Rightarrow> None
           | Some book \<Rightarrow> Some (mapReadestBookToSDK metadataOf book)))"

definition getCurrentChapter :: "ReadestBookDataProvider \<Rightarrow> 'm Host \<Rightarrow> SDKChapter option" where
  "getCurrentChapter this host =
     (case getProgress host (bp_bookKey this) of
        None \<Rightarrow> None
      | Some sectionIndex \<Rightarrow>
          (case sectionsOf (getBookData host (bp_bookKey this)) of
             None \<Rightarrow> None
           | Some (bookDoc, sections) \<Rightarrow>
               if sectionIndex < 0 \<or> sectionIndex \<ge> int (length sections) then None
               else (case elementAt sections sectionIndex of
                       None \<Rightarrow> None
                     | Some section \<Rightarrow> Some (loadChapter sectionIndex section bookDoc))))"

definition getChapter :: "ReadestBookDataProvider \<Rightarrow> int \<Rightarrow> 'm Host \<Rightarrow> BookError + SDKChapter" where
  "getChapter this index host =
     (case sectionsOf (getBookData host (bp_bookKey this)) of
        None \<Rightarrow> Inl BookDocumentNotAvailable
      | Some (bookDoc, sections) \<Rightarrow>
          if index < 0 \<or> index \<ge> int (length sections)
          then Inl (ChapterIndexOutOfRange index (int (length sections) - 1))
          else (case elementAt sections index of
                  None \<Rightarrow> Inl (SectionUndefined index)
                | Some section \<Rightarrow> Inr (loadChapter index section bookDoc)))"

definition getChapterCount :: "ReadestBookDataProvider \<Rightarrow> 'm Host \<Rightarrow> int" where
  "getChapterCount this host =
     (case sectionsOf (getBookData host (bp_bookKey this)) of
        None \<Rightarrow> 0
      | Some (bookDoc, sections) \<Rightarrow> int (length sections))"

definition getAllChapters :: "ReadestBookDataProvider \<Rightarrow> 'm Host \<Rightarrow> SDKChapterSummary list" where
  "getAllChapters this host =
     (case getBookData host (bp_bookKey this) of
        None \<Rightarrow> []
      | Some d \<Rightarrow>
          (case data_bookDoc d of
             None \<Rightarrow> []
           | Some bookDoc \<Rightarrow>
               (case doc_toc bookDoc of
                  Some (t # ts) \<Rightarrow> mapTOCToChapterSummaries (flattenTOC (t # ts))
                | _ \<Rightarrow>
                    (let sections = (case doc_sections bookDoc of None \<Rightarrow> [] | Some ss \<Rightarrow> ss) in
                     map (\<lambda>(index, section).
                            \<lparr>summary_index = int index,
                             summary_title =
                               (case section_id section of
                                  Some i \<Rightarrow> i
                                | None \<Rightarrow> ''Section '' @ numberToString (jsAdd (int index) 1)),
                             summary_href =
                               (case section_href section of None \<Rightarrow> [] | Some h \<Rightarrow> h),
                             summary_wordCount = 0\<rparr>)
                       (zip [0 ..< length sections] sections)))))"

definition getChapterHTML :: "ReadestBookDataProvider \<Rightarrow> int \<Rightarrow> 'm Host \<Rightarrow> BookError + string" where
  "getChapterHTML this chapterIndex host =
     (case getChapter this chapterIndex host of
        Inl e \<Rightarrow> Inl e
      | Inr chapter \<Rightarrow> Inr (chapter_html chapter))"

definition getChapterText ::
  "ReadestBookDataProvider \<Rightarrow> int \<Rightarrow> 'm Host \<Rightarrow> BookError + CodeUnits" where
  "getChapterText this chapterIndex host =
     (case getChapter this chapterIndex host of
        Inl e \<Rightarrow> Inl e
      | Inr chapter \<Rightarrow> Inr (chapter_text chapter))"

section \<open>ReadestHostAPIProvider: the capability factories\<close>

text \<open>
  \<^verbatim>\<open>createBookAPI\<close> and \<^verbatim>\<open>createAnnotationAPI\<close> call the injected
  \<^verbatim>\<open>bookKeyAccessor\<close> once, when the capability is created, and hand the key they got
  to the provider's constructor. Modelled from the spec: \<^verbatim>\<open>BookAPIImpl\<close> and
  \<^verbatim>\<open>AnnotationAPIImpl\<close> of the SDK (\<^verbatim>\<open>@readest/plugin-sdk\<close>, not among these files)
  wrap the provider they are given and forward each call to it, so a capability is
  the provider it wraps.
\<close>

definition bookKeyAccessor :: "'m Host \<Rightarrow> string option" where
  "bookKeyAccessor host = host_activeBookKey host"

definition createBookAPI :: "'m Host \<Rightarrow> ReadestBookDataProvider" where
  "createBookAPI host =
     (let bookKey = (case bookKeyAccessor host of None \<Rightarrow> [] | Some k \<Rightarrow> k)
      in \<lparr>bp_bookKey = bookKey\<rparr>)"

definition createAnnotationAPI :: "'m Host \<Rightarrow> ReadestAnnotationDataProvider" where
  "createAnnotationAPI host =
     (let bookKey = (case bookKeyAccessor host of None \<Rightarrow> [] | Some k \<Rightarrow> k)
      in \<lparr>ap_bookKey = bookKey, ap_pluginId = ''readest''\<rparr>)"

section \<open>TauriProcessSpawner: the process bridge\<close>

text \<open>
  \<^verbatim>\<open>spawn\<close> returns its handle at once and runs the real spawn in an \<^verbatim>\<open>async\<close>
  function. The closure variables of one \<^verbatim>\<open>spawn\<close> call are the fields of
  \<open>SpawnedProcess\<close>; \<open>proc_phase\<close> is the point the \<^verbatim>\<open>async\<close> function has reached:
  it waits for the import, it has created the command (with its listeners) and waits
  for \<^verbatim>\<open>cmd.spawn()\<close>, the spawn has resolved, or it has ended in the \<^verbatim>\<open>catch\<close> block,
  before or after the command was created.

  A handler is a function of the caller. It is known by a number and by the payloads
  on which it throws; it does not call back into the handle. A call of a handler is an
  entry of the trace, as is a call of \<^verbatim>\<open>child.kill()\<close> on the spawned child
  (identified by its pid).
\<close>

datatype Phase =
    AwaitingImport
  | AwaitingSpawn
  | Running
  | ImportFailed
  | SpawnFailed

datatype Channel = ExitChannel | ErrorChannel | StdoutChannel | StderrChannel

datatype Payload =
    ExitCode "int option"
  | ErrorObject string
  | BufferLike string

datatype Handler = Handler (handler_id: nat) (handler_throws: "Payload \<Rightarrow> bool")

datatype Effect =
    HandlerCall Channel Handler Payload
  | ChildKill nat

record SpawnedProcess =
  proc_command :: string
  proc_args :: "string list"
  exitHandlers :: "Handler list"
  errorHandlers :: "Handler list"
  stdoutHandlers :: "Handler list"
  stderrHandlers :: "Handler list"
  killed :: bool
  childPid :: "nat option"
  childKill :: "nat option"
  proc_phase :: Phase
  proc_trace :: "Effect list"

text \<open>
  The state in which \<^verbatim>\<open>spawn(command, args)\<close> returns the handle: the \<^verbatim>\<open>async\<close>
  function has started and waits for the import of the shell plugin.
\<close>

definition spawn :: "string \<Rightarrow> string list \<Rightarrow> SpawnedProcess" where
  "spawn command args =
     \<lparr>proc_command = command, proc_args = args,
      exitHandlers = [], errorHandlers = [], stdoutHandlers = [], stderrHandlers = [],
      killed = False, childPid = None, childKill = None,
      proc_phase = AwaitingImport, proc_trace = []\<rparr>"

fun handlersOf :: "Channel \<Rightarrow> SpawnedProcess \<Rightarrow> Handler list" where
  "handlersOf ExitChannel s = exitHandlers s"
| "handlersOf ErrorChannel s = errorHandlers s"
| "handlersOf StdoutChannel s = stdoutHandlers s"
| "handlersOf StderrChannel s = stderrHandlers s"

text \<open>
  \<^verbatim>\<open>for (const handler of handlers) handler(payload)\<close>: the handlers are called in the
  order of their registration, and the loop has no \<^verbatim>\<open>try\<close>, so the first handler that
  throws is the last one called.
\<close>

fun calledHandlers :: "Payload \<Rightarrow> Handler list \<Rightarrow> Handler list" where
  "calledHandlers payload [] = []"
| "calledHandlers payload (h # hs) =
     (if handler_throws h payload then [h] else h # calledHandlers payload hs)"

definition callHandlers :: "Channel \<Rightarrow> Payload \<Rightarrow> SpawnedProcess \<Rightarrow> SpawnedProcess" where
  "callHandlers ch payload s =
     s\<lparr>proc_trace := proc_trace s
          @ map (\<lambda>h. HandlerCall ch h payload) (calledHandlers payload (handlersOf ch s))\<rparr>"

text \<open>The methods of the handle.\<close>

definition pid :: "SpawnedProcess \<Rightarrow> nat option" where
  "pid s = childPid s"

definition kill :: "SpawnedProcess \<Rightarrow> bool \<times> SpawnedProcess" where
  "kill s =
     (let s1 = s\<lparr>killed := True\<rparr> in
      (case childKill s1 of
         Some child \<Rightarrow> (True, s1\<lparr>proc_trace := proc_trace s1 @ [ChildKill child]\<rparr>)
       | None \<Rightarrow> (True, s1)))"

definition on :: "string \<Rightarrow> Handler \<Rightarrow> SpawnedProcess \<Rightarrow> SpawnedProcess" where
  "on event handler s =
     (if event = ''exit'' then s\<lparr>exitHandlers := exitHandlers s @ [handler]\<rparr>
      else if event = ''error'' then s\<lparr>errorHandlers := errorHandlers s @ [handler]\<rparr>
      else s)"

definition stdoutOn :: "string \<Rightarrow> Handler \<Rightarrow> SpawnedProcess \<Rightarrow> SpawnedProcess" where
  "stdoutOn event handler s = s\<lparr>stdoutHandlers := stdoutHandlers s @ [handler]\<rparr>"

definition stderrOn :: "string \<Rightarrow> Handler \<Rightarrow> SpawnedProcess \<Rightarrow> SpawnedProcess" where
  "stderrOn event handler s = s\<lparr>stderrHandlers := stderrHandlers s @ [handler]\<rparr>"

text \<open>
  The \<^verbatim>\<open>async\<close> function, one step per \<^verbatim>\<open>await\<close>: the import resolves and the command
  is created with its four listeners attached; \<^verbatim>\<open>cmd.spawn()\<close> resolves with a child;
  or one of the two rejects and the \<^verbatim>\<open>catch\<close> block reports the error to the error
  handlers.
\<close>

definition commandCreated :: "SpawnedProcess \<Rightarrow> SpawnedProcess" where
  "commandCreated s = (if proc_phase s = AwaitingImport then s\<lparr>proc_phase := AwaitingSpawn\<rparr> else s)"

definition spawnResolved :: "nat \<Rightarrow> SpawnedProcess \<Rightarrow> SpawnedProcess" where
  "spawnResolved child s =
     (if proc_phase s = AwaitingSpawn
      then (let s1 = s\<lparr>childPid := Some child, childKill := Some child, proc_phase := Running\<rparr> in
            (case childKill s1 of
               Some c \<Rightarrow> if killed s1 then s1\<lparr>proc_trace := proc_trace s1 @ [ChildKill c]\<rparr> else s1
             | None \<Rightarrow> s1))
      else s)"

definition spawnRejected :: "string \<Rightarrow> SpawnedProcess \<Rightarrow> SpawnedProcess" where
  "spawnRejected err s =
     (if proc_phase s = AwaitingImport
      then callHandlers ErrorChannel (ErrorObject err) (s\<lparr>proc_phase := ImportFailed\<rparr>)
      else if proc_phase s = AwaitingSpawn
      then callHandlers ErrorChannel (ErrorObject err) (s\<lparr>proc_phase := SpawnFailed\<rparr>)
      else s)"

text \<open>
  The listeners attached to the Tauri command. They are attached when the command is
  created and nothing detaches them, also not a rejected \<^verbatim>\<open>cmd.spawn()\<close>; they run
  when the command emits the event.
\<close>

definition listening :: "SpawnedProcess \<Rightarrow> bool" where
  "listening s =
     (proc_phase s = AwaitingSpawn \<or> proc_phase s = Running \<or> proc_phase s = SpawnFailed)"

datatype CommandEvent =
    Close "int option"
  | Error string
  | StdoutData string
  | StderrData string

fun emit :: "CommandEvent \<Rightarrow> SpawnedProcess \<Rightarrow> SpawnedProcess" where
  "emit (Close code) s = (if listening s then callHandlers ExitChannel (ExitCode code) s else s)"
| "emit (Error errorMsg) s =
     (if listening s then callHandlers ErrorChannel (ErrorObject errorMsg) s else s)"
| "emit (StdoutData line) s =
     (if listening s then callHandlers StdoutChannel (BufferLike line) s else s)"
| "emit (StderrData line) s =
     (if listening s then callHandlers StderrChannel (BufferLike line) s else s)"

text \<open>Everything that can happen to one handle, and a run of such steps in order.\<close>

datatype Action =
    CallKill
  | CallOn string Handler
  | CallStdoutOn string Handler
  | CallStderrOn string Handler
  | CommandCreated
  | SpawnResolved nat
  | SpawnRejected string
  | Emit CommandEvent

fun step :: "SpawnedProcess \<Rightarrow> Action \<Rightarrow> SpawnedProcess" where
  "step s CallKill = snd (kill s)"
| "step s (CallOn event handler) = on event handler s"
| "step s (CallStdoutOn event handler) = stdoutOn event handler s"
| "step s (CallStderrOn event handler) = stderrOn event handler s"
| "step s CommandCreated = commandCreated s"
| "step s (SpawnResolved child) = spawnResolved child s"
| "step s (SpawnRejected err) = spawnRejected err s"
| "step s (Emit ev) = emit ev s"

definition run :: "Action list \<Rightarrow> SpawnedProcess \<Rightarrow> SpawnedProcess" where
  "run actions s = foldl step s actions"

text \<open>
  Reading a run. What the caller asked for: the handlers a list of actions registers
  for a channel, in the order of the calls (\<^verbatim>\<open>on('exit', h)\<close> and \<^verbatim>\<open>on('error', h)\<close>
  on the handle, \<^verbatim>\<open>stdout.on(_, h)\<close> and \<^verbatim>\<open>stderr.on(_, h)\<close> under any event name).
  What the command did: the channel an event is delivered on, the value its listener
  passes on, and the values a list of actions emits on a channel, in order. What the
  caller got: the values one handler was called with on one channel, in the order of
  the calls.
\<close>

fun registered :: "Channel \<Rightarrow> Action list \<Rightarrow> Handler list" where
  "registered ch [] = []"
| "registered ch (CallOn event handler # actions) =
     (if (ch = ExitChannel \<and> event = ''exit'') \<or> (ch = ErrorChannel \<and> event = ''error'')
      then handler # registered ch actions else registered ch actions)"
| "registered ch (CallStdoutOn event handler # actions) =
     (if ch = StdoutChannel then handler # registered ch actions else registered ch actions)"
| "registered ch (CallStderrOn event handler # actions) =
     (if ch = StderrChannel then handler # registered ch actions else registered ch actions)"
| "registered ch (a # actions) = registered ch actions"

fun channelOf :: "CommandEvent \<Rightarrow> Channel" where
  "channelOf (Close code) = ExitChannel"
| "channelOf (Error errorMsg) = ErrorChannel"
| "channelOf (StdoutData line) = StdoutChannel"
| "channelOf (StderrData line) = StderrChannel"

fun payloadOf :: "CommandEvent \<Rightarrow> Payload" where
  "payloadOf (Close code) = ExitCode code"
| "payloadOf (Error errorMsg) = ErrorObject errorMsg"
| "payloadOf (StdoutData line) = BufferLike line"
| "payloadOf (StderrData line) = BufferLike line"

fun emitted :: "Channel \<Rightarrow> Action list \<Rightarrow> Payload list" where
  "emitted ch [] = []"
| "emitted ch (Emit ev # actions) =
     (if channelOf ev = ch then payloadOf ev # emitted ch actions else emitted ch actions)"
| "emitted ch (a # actions) = emitted ch actions"

fun callsOf :: "Channel \<Rightarrow> Handler \<Rightarrow> Effect list \<Rightarrow> Payload list" where
  "callsOf ch h [] = []"
| "callsOf ch h (HandlerCall ch' h' payload # effects) =
     (if ch' = ch \<and> h' = h then payload # callsOf ch h effects else callsOf ch h effects)"
| "callsOf ch h (ChildKill child # effects) = callsOf ch h effects"

text \<open>The web stub and the factory that picks a spawner for the environment.\<close>

datatype SpawnError = SidecarNotSupported

definition createProcessSpawner ::
  "bool \<Rightarrow> string \<Rightarrow> string list \<Rightarrow> SpawnError + SpawnedProcess" where
  "createProcessSpawner isTauri command args =
     (if isTauri then Inr (spawn command args) else Inl SidecarNotSupported)"

section \<open>pluginInitService: initialization and shutdown\<close>

record PluginManifest =
  manifest_id :: string
  manifest_name :: string

text \<open>An entry of what \<^verbatim>\<open>discoverPlugins\<close> returns.\<close>

record DiscoveredPlugin =
  manifestPath :: string
  manifest :: "PluginManifest option"
  errors :: "string list"

datatype InitError =
    HostProviderFailed string
  | DiscoveryFailed string
  | LoadFailed string

text \<open>
  Modelled from the spec: \<^verbatim>\<open>PluginLoader\<close> of the SDK (\<^verbatim>\<open>@readest/plugin-sdk\<close>), whose
  source is not among these files. A loader keeps the plugins it has loaded and
  activated, here by manifest path in the order of loading.
  \<^verbatim>\<open>loadPlugin(path, {activate: true})\<close> either throws or loads and activates the
  plugin.
\<close>

record PluginLoader =
  loader_activated :: "string list"

text \<open>
  What \<^verbatim>\<open>initializePlugins\<close> gets from outside: whether
  \<^verbatim>\<open>createHostAPIProvider\<close> rejects, the directory
  \<^verbatim>\<open>getPluginsBaseDirectory\<close> resolves to (empty on the web and when the path cannot
  be resolved), what discovery returns for a directory, and for which manifest
  paths loading or activation fails.
\<close>

record InitEnvironment =
  env_hostProviderError :: "string option"
  env_pluginsDir :: string
  env_discover :: "string \<Rightarrow> string + DiscoveredPlugin list"
  env_loadError :: "string \<Rightarrow> string option"

definition discoverPlugins :: "InitEnvironment \<Rightarrow> string \<Rightarrow> InitError + DiscoveredPlugin list" where
  "discoverPlugins env dir =
     (case env_discover env dir of Inl msg \<Rightarrow> Inl (DiscoveryFailed msg) | Inr ds \<Rightarrow> Inr ds)"

definition loadPlugin :: "InitEnvironment \<Rightarrow> string \<Rightarrow> PluginLoader \<Rightarrow> InitError + PluginLoader" where
  "loadPlugin env path loader =
     (case env_loadError env path of
        Some msg \<Rightarrow> Inl (LoadFailed msg)
      | None \<Rightarrow> Inr (loader\<lparr>loader_activated := loader_activated loader @ [path]\<rparr>))"

text \<open>
  The module-level variables \<^verbatim>\<open>_loader\<close>, \<^verbatim>\<open>_hostProvider\<close> and
  \<^verbatim>\<open>_bookKeyAccessor\<close> (the latter two by whether they are set) and the plugin store.
\<close>

record ('c, 'x) Runtime =
  rt_loader :: "PluginLoader option"
  rt_hostProvider :: bool
  rt_bookKeyAccessor :: bool
  rt_store :: "('c, 'x) PluginStoreState"

text \<open>
  Step 4 of \<^verbatim>\<open>initializePlugins\<close>: the loop over the discovered plugins, with its
  \<^verbatim>\<open>try\<close>/\<^verbatim>\<open>catch\<close> around each \<^verbatim>\<open>loadPlugin\<close>. It carries the loader and
  \<^verbatim>\<open>loadedCount\<close>.
\<close>

fun loadDiscovered ::
  "InitEnvironment \<Rightarrow> DiscoveredPlugin list \<Rightarrow> PluginLoader \<times> nat \<Rightarrow> PluginLoader \<times> nat" where
  "loadDiscovered env [] (loader, loadedCount) = (loader, loadedCount)"
| "loadDiscovered env (plugin # rest) (loader, loadedCount) =
     (case manifest plugin of
        Some m \<Rightarrow>
          (case loadPlugin env (manifestPath plugin) loader of
             Inr loader' \<Rightarrow> loadDiscovered env rest (loader', loadedCount + 1)
           | Inl e \<Rightarrow> loadDiscovered env rest (loader, loadedCount))
      | None \<Rightarrow> loadDiscovered env rest (loader, loadedCount))"

text \<open>
  The \<^verbatim>\<open>try\<close> block. An exception leaves the module-level assignments made before it
  in place, so the block returns the runtime together with the exception, if any.
\<close>

definition initializeBody ::
  "InitEnvironment \<Rightarrow> ('c, 'x) Runtime \<Rightarrow> InitError option \<times> ('c, 'x) Runtime" where
  "initializeBody env rt =
     (case env_hostProviderError env of
        Some msg \<Rightarrow> (Some (HostProviderFailed msg), rt)
      | None \<Rightarrow>
          (let rt1 = rt\<lparr>rt_hostProvider := True, rt_loader := Some \<lparr>loader_activated = []\<rparr>\<rparr>;
               pluginsDir = env_pluginsDir env
           in if pluginsDir \<noteq> []
              then (case discoverPlugins env pluginsDir of
                      Inl e \<Rightarrow> (Some e, rt1)
                    | Inr discovered \<Rightarrow>
                        (let (loader, loadedCount) =
                               loadDiscovered env discovered (\<lparr>loader_activated = []\<rparr>, 0)
                         in (None,
                             rt1\<lparr>rt_loader := Some loader,
                                 rt_store :=
                                   setInitialized True (setPluginCount loadedCount (rt_store rt1))\<rparr>)))
              else (None,
                    rt1\<lparr>rt_store := setInitialized True (setPluginCount 0 (rt_store rt1))\<rparr>)))"

text \<open>
  \<^verbatim>\<open>initializePlugins\<close>: \<open>Inl\<close> would be an exception that leaves the function.
\<close>

definition initializePlugins ::
  "InitEnvironment \<Rightarrow> ('c, 'x) Runtime \<Rightarrow> InitError + ('c, 'x) Runtime" where
  "initializePlugins env rt =
     (let rt0 = rt\<lparr>rt_bookKeyAccessor := True\<rparr> in
      (case initializeBody env rt0 of
         (None, rt1) \<Rightarrow> Inr rt1
       | (Some e, rt1) \<Rightarrow>
           Inr (rt1\<lparr>rt_store := setInitialized True (setPluginCount 0 (rt_store rt1))\<rparr>)))"

text \<open>
  \<^verbatim>\<open>shutdownPlugins\<close> unloads every plugin (an error of \<^verbatim>\<open>unloadAll\<close> is caught),
  then drops the loader with the other module-level variables and resets the store.
\<close>

definition shutdownPlugins :: "('c, 'x) Runtime \<Rightarrow> ('c, 'x) Runtime" where
  "shutdownPlugins rt =
     rt\<lparr>rt_loader := None, rt_hostProvider := False, rt_bookKeyAccessor := False,
        rt_store := setInitialized False (setPluginCount 0 (rt_store rt))\<rparr>"

definition getCurrentBookKey :: "('c, 'x) Runtime \<Rightarrow> 'm Host \<Rightarrow> string option" where
  "getCurrentBookKey rt host = (if rt_bookKeyAccessor rt then bookKeyAccessor host else None)"

section \<open>Example data\<close>

text \<open>
  A host with two books and notes in the config of the first, and a host with no book
  at all; used where a statement below is evaluated on a concrete input.
\<close>

definition noteA :: BookNote where
  "noteA =
     \<lparr>note_id = ''n1'', note_bookHash = Some ''abc123'', note_type = Annotation,
      note_cfi = ''epubcfi(/6/4!/4/2/1:0)'', note_text = Some ''first'', note_note = [],
      note_style = Some ''highlight'', note_color = Some ''yellow'',
      note_createdAt = 1700000000000, note_updatedAt = 1700000000000, note_deletedAt = None\<rparr>"

definition noteB :: BookNote where
  "noteB =
     \<lparr>note_id = ''n2'', note_bookHash = Some ''abc123'', note_type = Bookmark,
      note_cfi = ''epubcfi(/6/8!/4/2/1:0)'', note_text = None, note_note = ''second'',
      note_style = None, note_color = None,
      note_createdAt = 1700000000500, note_updatedAt = 1700000000500, note_deletedAt = None\<rparr>"

text \<open>A second note that carries the id of \<open>noteA\<close>.\<close>

definition noteA' :: BookNote where
  "noteA' = noteA\<lparr>note_cfi := ''epubcfi(/6/10!/4/2/1:0)'', note_text := Some ''again''\<rparr>"

definition sectionOne :: SectionItem where
  "sectionOne =
     \<lparr>section_id = Some ''ch1.xhtml'', section_href = Some ''OEBPS/ch1.xhtml'',
      section_createDocument =
        \<lparr>doc_outerHTML = Some ''<html><body><p>One  two</p></body></html>'',
         doc_textContent = Some (map of_char ''One  two'')\<rparr>\<rparr>"

definition sectionTwo :: SectionItem where
  "sectionTwo =
     \<lparr>section_id = None, section_href = None,
      section_createDocument = \<lparr>doc_outerHTML = None, doc_textContent = None\<rparr>\<rparr>"

definition bookAbc :: "unit ReadestBook" where
  "bookAbc =
     \<lparr>book_hash = ''abc123'', book_title = ''Alpha'', book_author = ''A. Author'',
      book_filePath = None, book_format = ''EPUB'', book_metadata = None\<rparr>"

definition bookXyz :: "unit ReadestBook" where
  "bookXyz =
     \<lparr>book_hash = ''xyz789'', book_title = ''Omega'', book_author = ''O. Author'',
      book_filePath = Some ''/books/omega.epub'', book_format = ''EPUB'', book_metadata = None\<rparr>"

definition hostWith :: "BookNote list \<Rightarrow> unit Host" where
  "hostWith notes =
     \<lparr>host_activeBookKey = Some ''abc123-1'',
      host_booksData =
        [''abc123-1'' \<mapsto>
           \<lparr>data_book = Some bookAbc,
            data_config = Some \<lparr>config_booknotes = Some notes\<rparr>,
            data_bookDoc = Some \<lparr>doc_sections = Some [sectionOne, sectionTwo], doc_toc = None\<rparr>\<rparr>,
         ''xyz789-1'' \<mapsto>
           \<lparr>data_book = Some bookXyz,
            data_config = Some \<lparr>config_booknotes = Some []\<rparr>,
            data_bookDoc = Some \<lparr>doc_sections = Some [sectionTwo], doc_toc = None\<rparr>\<rparr>],
      host_viewStates = Map.empty,
      host_savedConfigs = []\<rparr>"

definition footnoteInChapter3 :: SDKNewAnnotation where
  "footnoteInChapter3 =
     \<lparr>new_chapterIndex = 3, new_type = Footnote, new_content = ''see the appendix'',
      new_style = None, new_metadata = None\<rparr>"

text \<open>Handlers of a caller: one that returns, and one that throws whatever it is given.\<close>

definition quietHandler :: "nat \<Rightarrow> Handler" where
  "quietHandler n = Handler n (\<lambda>payload. False)"

definition throwingHandler :: "nat \<Rightarrow> Handler" where
  "throwingHandler n = Handler n (\<lambda>payload. True)"

definition emptyHost :: "unit Host" where
  "emptyHost =
     \<lparr>host_activeBookKey = None, host_booksData = Map.empty, host_viewStates = Map.empty,
      host_savedConfigs = []\<rparr>"

text \<open>
  A plugins directory with three manifests: one that loads, one whose module fails to
  load, and one whose manifest is invalid; and the runtime before initialization.
\<close>

definition goodPlugin :: DiscoveredPlugin where
  "goodPlugin =
     \<lparr>manifestPath = ''/appdata/plugins/good/plugin.json'',
      manifest = Some \<lparr>manifest_id = ''good'', manifest_name = ''Good''\<rparr>,
      errors = []\<rparr>"

definition brokenPlugin :: DiscoveredPlugin where
  "brokenPlugin =
     \<lparr>manifestPath = ''/appdata/plugins/broken/plugin.json'',
      manifest = Some \<lparr>manifest_id = ''broken'', manifest_name = ''Broken''\<rparr>,
      errors = []\<rparr>"

definition invalidPlugin :: DiscoveredPlugin where
  "invalidPlugin =
     \<lparr>manifestPath = ''/appdata/plugins/invalid/plugin.json'',
      manifest = None,
      errors = [''missing id'']\<rparr>"

definition desktopEnvironment :: InitEnvironment where
  "desktopEnvironment =
     \<lparr>env_hostProviderError = None,
      env_pluginsDir = ''/appdata/plugins'',
      env_discover = (\<lambda>dir. Inr [brokenPlugin, invalidPlugin, goodPlugin]),
      env_loadError =
        (\<lambda>path. if path = ''/appdata/plugins/broken/plugin.json''
                 then Some ''no default export'' else None)\<rparr>"

definition initialRuntime :: "(unit, unit) Runtime" where
  "initialRuntime =
     \<lparr>rt_loader = None, rt_hostProvider = False, rt_bookKeyAccessor = False,
      rt_store = initialPluginStore\<rparr>"

chapter \<open>Properties\<close>

section \<open>UI registries\<close>

lemma dispose_twice: "dispose t (dispose t s) = dispose t s"
  by (cases t)
    (simp_all add: unregisterPanel_def unregisterToolbarButton_def
      unregisterContextMenuItem_def unregisterStatusBarItem_def unregisterSettingsPage_def)

text \<open>
  Claim C7. In each of the three id-keyed sequences (toolbar buttons, context-menu
  items, status-bar items), registering entries with the pairwise different ids
  \<open>a\<close>, \<open>b\<close>, \<open>c\<close> in that order and then registering an entry \<open>b'\<close> that
  carries the id of \<open>b\<close> again leaves the three entries in the order \<open>[a, c, b']\<close>
  at the end of the sequence: the earlier entry for \<open>b\<close> is gone, \<open>a\<close> and \<open>c\<close>
  keep their relative order, and the new entry is last. Whatever the sequence held
  before under other ids stays in front, in its order; from the empty registry the
  result is exactly \<open>[a, c, b']\<close>.
\<close>

theorem register_replace_and_reorder:
  assumes "item_id a \<noteq> item_id b" and "item_id a \<noteq> item_id c" and "item_id b \<noteq> item_id c"
    and "item_id b' = item_id b"
  shows "pluginToolbarButtons
           (fst (registerToolbarButton b' (fst (registerToolbarButton c
             (fst (registerToolbarButton b (fst (registerToolbarButton a s))))))))
         = filter (\<lambda>x. item_id x \<notin> {item_id a, item_id b, item_id c}) (pluginToolbarButtons s)
             @ [a, c, b']
       \<and> pluginContextMenuItems
           (fst (registerContextMenuItem b' (fst (registerContextMenuItem c
             (fst (registerContextMenuItem b (fst (registerContextMenuItem a s))))))))
         = filter (\<lambda>x. item_id x \<notin> {item_id a, item_id b, item_id c}) (pluginContextMenuItems s)
             @ [a, c, b']
       \<and> pluginStatusBarItems
           (fst (registerStatusBarItem b' (fst (registerStatusBarItem c
             (fst (registerStatusBarItem b (fst (registerStatusBarItem a s))))))))
         = filter (\<lambda>x. item_id x \<notin> {item_id a, item_id b, item_id c}) (pluginStatusBarItems s)
             @ [a, c, b']"
  using assms
  by (auto simp: registerToolbarButton_def registerContextMenuItem_def registerStatusBarItem_def
      intro!: filter_cong)

theorem register_replace_and_reorder_witness:
  "pluginToolbarButtons
     (fst (registerToolbarButton \<lparr>item_id = ''b'', item_body = True\<rparr>
       (fst (registerToolbarButton \<lparr>item_id = ''c'', item_body = False\<rparr>
         (fst (registerToolbarButton \<lparr>item_id = ''b'', item_body = False\<rparr>
           (fst (registerToolbarButton \<lparr>item_id = ''a'', item_body = False\<rparr>
             (initialPluginStore :: (unit, bool) PluginStoreState)))))))))
   = [\<lparr>item_id = ''a'', item_body = False\<rparr>, \<lparr>item_id = ''c'', item_body = False\<rparr>,
      \<lparr>item_id = ''b'', item_body = True\<rparr>]"
  using register_replace_and_reorder
    [of "\<lparr>item_id = ''a'', item_body = False\<rparr>" "\<lparr>item_id = ''b'', item_body = False\<rparr>"
        "\<lparr>item_id = ''c'', item_body = False\<rparr>" "\<lparr>item_id = ''b'', item_body = True\<rparr>"
        "initialPluginStore :: (unit, bool) PluginStoreState"]
  by (simp add: initialPluginStore_def)

text \<open>
  Claim C8. The token a register action returns performs the matching unregister for
  the key it was registered under, on the store as it is when the token is called:
  afterwards the registry has no entry under that key. Calling it a second time
  changes nothing: the store after two calls is the store after one. This holds for
  panels, toolbar buttons, context-menu items, status-bar items and settings pages,
  from every store.
\<close>

theorem disposal_token_idempotent:
  "dispose (snd (registerPanel pluginId panelId component s)) s' = unregisterPanel panelId s'
   \<and> dispose (snd (registerToolbarButton button s)) s' = unregisterToolbarButton (item_id button) s'
   \<and> dispose (snd (registerContextMenuItem item s)) s' = unregisterContextMenuItem (item_id item) s'
   \<and> dispose (snd (registerStatusBarItem item s)) s' = unregisterStatusBarItem (item_id item) s'
   \<and> dispose (snd (registerSettingsPage pluginId component s)) s' = unregisterSettingsPage pluginId s'
   \<and> dispose (snd (registerPanel pluginId panelId component s))
         (dispose (snd (registerPanel pluginId panelId component s)) s')
       = dispose (snd (registerPanel pluginId panelId component s)) s'
   \<and> dispose (snd (registerToolbarButton button s)) (dispose (snd (registerToolbarButton button s)) s')
       = dispose (snd (registerToolbarButton button s)) s'
   \<and> dispose (snd (registerContextMenuItem item s)) (dispose (snd (registerContextMenuItem item s)) s')
       = dispose (snd (registerContextMenuItem item s)) s'
   \<and> dispose (snd (registerStatusBarItem item s)) (dispose (snd (registerStatusBarItem item s)) s')
       = dispose (snd (registerStatusBarItem item s)) s'
   \<and> dispose (snd (registerSettingsPage pluginId component s))
         (dispose (snd (registerSettingsPage pluginId component s)) s')
       = dispose (snd (registerSettingsPage pluginId component s)) s'
   \<and> pluginPanels (dispose (snd (registerPanel pluginId panelId component s)) s') panelId = None
   \<and> item_id button
         \<notin> item_id ` set (pluginToolbarButtons (dispose (snd (registerToolbarButton button s)) s'))
   \<and> item_id item
         \<notin> item_id ` set (pluginContextMenuItems (dispose (snd (registerContextMenuItem item s)) s'))
   \<and> item_id item
         \<notin> item_id ` set (pluginStatusBarItems (dispose (snd (registerStatusBarItem item s)) s'))
   \<and> pluginSettingsPages (dispose (snd (registerSettingsPage pluginId component s)) s') pluginId
       = None"
proof -
  have tokens:
    "snd (registerPanel pluginId panelId component s) = DisposePanel panelId"
    "snd (registerToolbarButton button s) = DisposeToolbarButton (item_id button)"
    "snd (registerContextMenuItem item s) = DisposeContextMenuItem (item_id item)"
    "snd (registerStatusBarItem item s) = DisposeStatusBarItem (item_id item)"
    "snd (registerSettingsPage pluginId component s) = DisposeSettingsPage pluginId"
    by (simp_all add: registerPanel_def registerToolbarButton_def registerContextMenuItem_def
        registerStatusBarItem_def registerSettingsPage_def Let_def)
  have gone:
    "pluginPanels (unregisterPanel panelId s') panelId = None"
    "item_id button \<notin> item_id ` set (pluginToolbarButtons (unregisterToolbarButton (item_id button) s'))"
    "item_id item \<notin> item_id ` set (pluginContextMenuItems (unregisterContextMenuItem (item_id item) s'))"
    "item_id item \<notin> item_id ` set (pluginStatusBarItems (unregisterStatusBarItem (item_id item) s'))"
    "pluginSettingsPages (unregisterSettingsPage pluginId s') pluginId = None"
    by (auto simp: unregisterPanel_def unregisterToolbarButton_def unregisterContextMenuItem_def
        unregisterStatusBarItem_def unregisterSettingsPage_def)
  show ?thesis
    unfolding tokens dispose_twice using gone by simp
qed

section \<open>Doubles\<close>

lemma bitLength_bounds: "2 ^ k \<le> x \<Longrightarrow> x < 2 ^ Suc k \<Longrightarrow> bitLength x = Suc k"
proof (induction k arbitrary: x)
  case 0
  then have "x = 1" by simp
  then show ?case by (simp add: bitLength.simps)
next
  case (Suc k)
  from Suc.prems have "2 ^ k \<le> x div 2" and "x div 2 < 2 ^ Suc k" by auto
  then have "bitLength (x div 2) = Suc k" by (rule Suc.IH)
  moreover from Suc.prems have "x \<noteq> 0" by auto
  ultimately show ?case by (subst bitLength.simps) simp
qed

lemma pow53_lt_infinity: "(2::nat) ^ 53 < 2 ^ 1024"
  by (rule power_strict_increasing) simp_all

lemma pow54_lt_infinity: "(2::nat) ^ 54 < 2 ^ 1024"
  by (rule power_strict_increasing) simp_all

lemma nearestDouble_small: "x < 2 ^ 53 \<Longrightarrow> nearestDouble x = x"
  by (simp add: nearestDouble_def)

lemma nearestDouble_even:
  assumes "2 ^ 53 \<le> x" and "x < 2 ^ 54" and "even x"
  shows "nearestDouble x = x"
proof -
  have "bitLength x = Suc 53" using assms(1,2) by (intro bitLength_bounds) simp_all
  then have e: "bitLength x - 53 = 1" by simp
  from assms(3) have r: "x mod 2 = 0" by presburger
  from assms(1) have "\<not> x < 2 ^ 53" by simp
  then show ?thesis
    using assms(3) by (simp add: nearestDouble_def e r Let_def)
qed

lemma nearestDouble_pow54:
  assumes "x = 2 ^ 54"
  shows "nearestDouble x = x"
proof -
  have "bitLength x = Suc 54" unfolding assms by (intro bitLength_bounds) simp_all
  then have e: "bitLength x - 53 = 2" by simp
  have q: "x div 4 = 2 ^ 52" and r: "x mod 4 = 0" and big: "\<not> x < 2 ^ 53"
    unfolding assms by simp_all
  show ?thesis
    unfolding nearestDouble_def e using q r big by (simp add: Let_def assms)
qed

lemma toDoubleNat_exact:
  assumes "x \<le> 2 ^ 54" and "x < 2 ^ 53 \<or> even x"
  shows "toDoubleNat x = x"
proof -
  have n: "nearestDouble x = x"
  proof (cases "x < 2 ^ 53")
    case True
    then show ?thesis by (rule nearestDouble_small)
  next
    case False
    with assms(2) have ev: "even x" by simp
    show ?thesis
    proof (cases "x = 2 ^ 54")
      case True
      then show ?thesis by (rule nearestDouble_pow54)
    next
      case False
      with assms(1) have "x < 2 ^ 54" by simp
      with \<open>\<not> x < 2 ^ 53\<close> ev show ?thesis by (intro nearestDouble_even) simp_all
    qed
  qed
  have "x < 2 ^ 1024" using assms(1) pow54_lt_infinity by linarith
  then show ?thesis by (simp add: toDoubleNat_def n)
qed

lemma toDouble_exact:
  assumes "0 \<le> x" and "x \<le> 2 ^ 54" and "x < 2 ^ 53 \<or> even x"
  shows "toDouble x = x"
proof -
  have le: "nat x \<le> 2 ^ 54" using assms(1,2) by (simp add: nat_le_iff)
  have ev: "nat x < 2 ^ 53 \<or> even (nat x)"
    using assms(1,3) by (auto simp: nat_less_iff even_nat_iff)
  from toDoubleNat_exact[OF le ev] assms(1) show ?thesis by (simp add: toDouble_def)
qed

section \<open>Strings and CFI steps\<close>

lemma digitValue_digitChar: "d < 10 \<Longrightarrow> digitValue (digitChar d) = d"
  by (simp add: digitValue_def digitChar_def)

lemma isDigit_digitChar: "d < 10 \<Longrightarrow> isDigit (digitChar d)"
  by (simp add: isDigit_def digitChar_def)

lemma natToString_digits: "\<forall>c \<in> set (natToString n). isDigit c"
proof (induction n rule: natToString.induct)
  case (1 n)
  show ?case
  proof (cases "n < 10")
    case True
    then show ?thesis by (subst natToString.simps) (simp add: isDigit_digitChar)
  next
    case False
    with 1 show ?thesis by (subst natToString.simps) (simp add: isDigit_digitChar)
  qed
qed

lemma natToString_nonempty: "natToString n \<noteq> []"
  by (subst natToString.simps) simp

lemma natToString_length: "0 < k \<Longrightarrow> x < 10 ^ k \<Longrightarrow> length (natToString x) \<le> k"
proof (induction k arbitrary: x)
  case 0
  then show ?case by simp
next
  case (Suc k)
  show ?case
  proof (cases "x < 10")
    case True
    then show ?thesis by (subst natToString.simps) simp
  next
    case False
    with Suc.prems have k: "0 < k" by (cases k) simp_all
    from Suc.prems have "x div 10 < 10 ^ k" by (simp add: less_mult_imp_div_less mult.commute)
    with k have "length (natToString (x div 10)) \<le> k" by (rule Suc.IH)
    with False show ?thesis by (subst natToString.simps) simp
  qed
qed

lemma parseInt10_snoc: "parseInt10 (s @ [c]) = 10 * parseInt10 s + digitValue c"
  by (simp add: parseInt10_def)

lemma parseInt10_natToString: "parseInt10 (natToString n) = n"
proof (induction n rule: natToString.induct)
  case (1 n)
  show ?case
  proof (cases "n < 10")
    case True
    then show ?thesis
      by (subst natToString.simps) (simp add: parseInt10_def digitValue_digitChar)
  next
    case False
    with 1 have "parseInt10 (natToString (n div 10)) = n div 10" by simp
    with False show ?thesis
      by (subst natToString.simps) (simp add: parseInt10_snoc digitValue_digitChar)
  qed
qed

lemma parseInt10_zeros: "parseInt10 (s @ replicate m CHR ''0'') = parseInt10 s * 10 ^ m"
proof (induction m)
  case 0
  then show ?case by simp
next
  case (Suc m)
  have "s @ replicate (Suc m) CHR ''0'' = (s @ replicate m CHR ''0'') @ [CHR ''0'']"
    by (simp add: replicate_append_same)
  then show ?case
    using Suc by (simp only: parseInt10_snoc) (simp add: digitValue_def)
qed

lemma isDigit_zero: "isDigit CHR ''0''"
  by (simp add: isDigit_def)

lemma candidateDigits_rounds:
  "candidateDigits x n k = Some s \<Longrightarrow> toDoubleNat (s * 10 ^ (n - k)) = x"
  by (auto simp: candidateDigits_def Let_def split: if_splits)

lemma firstDigits_candidate:
  "firstDigits x n ks = Some (k, s) \<Longrightarrow> candidateDigits x n k = Some s"
  by (induction ks) (auto split: option.splits)

lemma ten21_lt_infinity: "(10::nat) ^ 21 < 2 ^ 1024"
proof -
  have "(10::nat) ^ 21 < 2 ^ 84" by simp
  also have "(2::nat) ^ 84 < 2 ^ 1024" by (rule power_strict_increasing) simp_all
  finally show ?thesis .
qed

text \<open>
  Printing a double below \<open>1e21\<close> and parsing the digits again gives the double back:
  the digits chosen are digits of a number that rounds to it.
\<close>

lemma natNumberToString_round_trip:
  assumes dbl: "toDoubleNat x = x" and small: "x < 10 ^ 21"
  shows "(\<forall>c \<in> set (natNumberToString x). isDigit c)
       \<and> natNumberToString x \<noteq> []
       \<and> toDoubleNat (parseInt10 (natNumberToString x)) = x"
proof -
  from small ten21_lt_infinity have fin: "\<not> x \<ge> 2 ^ 1024" by linarith
  have plain: "(\<forall>c \<in> set (natToString x). isDigit c) \<and> natToString x \<noteq> []
       \<and> toDoubleNat (parseInt10 (natToString x)) = x"
    using dbl by (simp add: natToString_digits natToString_nonempty parseInt10_natToString)
  show ?thesis
  proof (cases "x \<le> 2 ^ 53")
    case True
    with fin plain show ?thesis by (simp add: natNumberToString_def)
  next
    case False
    define n where "n = length (natToString x)"
    from small have n21: "n \<le> 21" unfolding n_def by (intro natToString_length) simp_all
    show ?thesis
    proof (cases "firstDigits x n [1 ..< Suc n]")
      case None
      with fin False plain n21 show ?thesis
        by (simp add: natNumberToString_def n_def [symmetric] Let_def)
    next
      case (Some ks)
      obtain k s where ks: "ks = (k, s)" by (cases ks)
      from Some ks have "candidateDigits x n k = Some s" by (simp add: firstDigits_candidate)
      then have r: "toDoubleNat (s * 10 ^ (n - k)) = x" by (rule candidateDigits_rounds)
      have str: "natNumberToString x = natToString s @ replicate (n - k) CHR ''0''"
        using fin False Some ks n21 by (simp add: natNumberToString_def n_def [symmetric] Let_def)
      have d: "\<forall>c \<in> set (natToString s @ replicate (n - k) CHR ''0''). isDigit c"
        using natToString_digits[of s] isDigit_zero by auto
      show ?thesis
        unfolding str using r d
        by (simp add: natToString_nonempty parseInt10_zeros parseInt10_natToString)
    qed
  qed
qed

lemma not_isDigit_bang: "\<not> isDigit CHR ''!''"
  by (simp add: isDigit_def)

lemma takeWhile_digits_bang:
  "\<forall>c \<in> set ds. isDigit c \<Longrightarrow> takeWhile isDigit (ds @ ''!)'') = ds"
  by (induction ds) (simp_all add: not_isDigit_bang)

lemma matchSpineStep_synth:
  assumes "\<forall>c \<in> set ds. isDigit c" and "ds \<noteq> []"
  shows "matchSpineStep (''epubcfi(/6/'' @ ds @ ''!)'') = Some ds"
proof -
  have "takeWhile isDigit (ds @ ''!)'') = ds"
    using assms(1) by (rule takeWhile_digits_bang)
  with assms(2) show ?thesis by simp
qed

lemma step_exact:
  assumes "0 \<le> n" and "n < 2 ^ 53"
  shows "jsMul (jsAdd n 1) 2 = (n + 1) * 2"
proof -
  have a: "toDouble (n + 1) = n + 1"
  proof (rule toDouble_exact)
    show "0 \<le> n + 1" using assms(1) by simp
    show "n + 1 \<le> 2 ^ 54" using assms(2) by simp
    show "n + 1 < 2 ^ 53 \<or> even (n + 1)"
    proof (cases "n + 1 < 2 ^ 53")
      case True
      then show ?thesis by simp
    next
      case False
      with assms(2) have "n + 1 = 2 ^ 53" by simp
      then show ?thesis by simp
    qed
  qed
  have m: "toDouble ((n + 1) * 2) = (n + 1) * 2"
  proof (rule toDouble_exact)
    show "0 \<le> (n + 1) * 2" using assms(1) by simp
    show "(n + 1) * 2 \<le> 2 ^ 54" using assms(2) by simp
    show "(n + 1) * 2 < 2 ^ 53 \<or> even ((n + 1) * 2)" by simp
  qed
  show ?thesis by (simp only: jsAdd_def jsMul_def a m)
qed

text \<open>
  Reading back a CFI synthesized from a step that is a double below \<open>1e21\<close>.
\<close>

lemma extract_step:
  assumes dbl: "toDoubleNat y = y" and small: "y < 10 ^ 21"
  shows "extractSectionIndexFromCFI (''epubcfi(/6/'' @ natNumberToString y @ ''!)'')
           = max 0 (jsSub (floorHalf (int y)) 1)"
proof -
  define ds where "ds = natNumberToString y"
  from natNumberToString_round_trip[OF dbl small]
  have digits: "\<forall>c \<in> set ds. isDigit c" and ne: "ds \<noteq> []"
    and reread: "toDoubleNat (parseInt10 ds) = y"
    by (simp_all add: ds_def)
  have m: "matchSpineStep (''epubcfi(/6/'' @ ds @ ''!)'') = Some ds"
    using digits ne by (rule matchSpineStep_synth)
  have step: "toDouble (int (parseInt10 ds)) = int y"
    using reread by (simp add: toDouble_def)
  have "extractSectionIndexFromCFI (''epubcfi(/6/'' @ ds @ ''!)'')
          = max 0 (jsSub (floorHalf (int y)) 1)"
    unfolding extractSectionIndexFromCFI_def m
    using ne by (simp add: step Let_def)
  then show ?thesis by (simp only: ds_def)
qed

lemma extract_synth:
  assumes "0 \<le> n" and "n < 2 ^ 53"
  shows "extractSectionIndexFromCFI (''epubcfi(/6/'' @ numberToString ((n + 1) * 2) @ ''!)'') = n"
proof -
  define y where "y = nat ((n + 1) * 2)"
  define st where "st = (n + 1) * 2"
  have yint: "int y = st" using assms(1) by (simp add: y_def st_def)
  have y54: "y \<le> 2 ^ 54" using assms by (simp add: y_def nat_le_iff)
  have yev: "even y" using assms(1) by (simp add: y_def even_nat_iff)
  have dbl: "toDoubleNat y = y" using y54 yev by (intro toDoubleNat_exact) simp_all
  have "(2::nat) ^ 54 < 10 ^ 21" by simp
  with y54 have small: "y < 10 ^ 21" by linarith
  have num: "numberToString ((n + 1) * 2) = natNumberToString y"
    using assms(1) by (simp add: numberToString_def y_def)
  have "st \<le> 2 ^ 54" using assms(2) by (simp add: st_def)
  also have "(2::int) ^ 54 < 2 ^ 1024" by (rule power_strict_increasing) simp_all
  finally have half: "floorHalf st = n + 1" by (simp add: floorHalf_def st_def)
  have sub: "jsSub (n + 1) 1 = n"
    using toDouble_exact[of n] assms by (simp add: jsSub_def)
  show ?thesis
    unfolding num extract_step[OF dbl small] yint half sub using assms(1) by simp
qed

text \<open>
  At \<open>2 ^ 53\<close> the sum \<open>n + 1\<close> is no double: it is half way between two doubles and
  rounds to \<open>2 ^ 53\<close>, and the index read back is \<open>2 ^ 53 - 1\<close>.
\<close>

lemma nearestDouble_tie:
  assumes "x = 2 ^ 53 + 1"
  shows "nearestDouble x = 2 ^ 53"
proof -
  have "bitLength x = Suc 53" unfolding assms by (intro bitLength_bounds) simp_all
  then have e: "bitLength x - 53 = 1" by simp
  have q: "x div 2 = 2 ^ 52" and r: "x mod 2 = 1" and big: "\<not> x < 2 ^ 53"
    unfolding assms by simp_all
  show ?thesis
    unfolding nearestDouble_def e using q r big by (simp add: Let_def)
qed

lemma jsAdd_tie: "jsAdd 9007199254740992 1 = 9007199254740992"
proof -
  have "nearestDouble 9007199254740993 = 2 ^ 53" by (rule nearestDouble_tie) simp
  then have "toDoubleNat 9007199254740993 = 9007199254740992"
    using pow53_lt_infinity by (simp add: toDoubleNat_def)
  then show ?thesis by (simp add: jsAdd_def toDouble_def)
qed

lemma extract_synth_unsafe:
  "extractSectionIndexFromCFI
     (''epubcfi(/6/'' @ numberToString (jsMul (jsAdd 9007199254740992 1) 2) @ ''!)'')
   = 9007199254740991"
proof -
  have m: "jsMul 9007199254740992 2 = 18014398509481984"
    using toDouble_exact[of 18014398509481984] by (simp add: jsMul_def)
  have dbl: "toDoubleNat 18014398509481984 = 18014398509481984"
    by (rule toDoubleNat_exact) simp_all
  have small: "(18014398509481984::nat) < 10 ^ 21" by simp
  have num: "numberToString 18014398509481984 = natNumberToString 18014398509481984"
    by (simp add: numberToString_def)
  have "(18014398509481984::int) < 2 ^ 1024"
    using power_strict_increasing[of 54 1024 "2::int"] by simp
  then have half: "floorHalf 18014398509481984 = 9007199254740992"
    by (simp add: floorHalf_def)
  have sub: "jsSub 9007199254740992 1 = 9007199254740991"
    using toDouble_exact[of 9007199254740991] by (simp add: jsSub_def)
  show ?thesis
    unfolding jsAdd_tie m num extract_step[OF dbl small] using half sub by simp
qed

section \<open>Annotations in the store\<close>

lemma getConfig_renderAnnotation [simp]:
  "getConfig (renderAnnotation key note remove host) k = getConfig host k"
  by (auto simp: getConfig_def renderAnnotation_def split: option.splits)

lemma getConfig_persist [simp]: "getConfig (persist key c host) k = getConfig host k"
  by (simp add: getConfig_def persist_def saveConfig_def split: option.splits)

lemma updateBooknotes_present:
  assumes "getConfig host key = Some config"
  shows "snd (updateBooknotes key notes host) = Some (config\<lparr>config_booknotes := Some notes\<rparr>)"
    and "getConfig (fst (updateBooknotes key notes host)) key
           = Some (config\<lparr>config_booknotes := Some notes\<rparr>)"
  using assms by (auto simp: getConfig_def updateBooknotes_def Let_def split: option.splits)

lemma getConfig_createAnnotation:
  assumes "getConfig host (ap_bookKey this) = Some config"
  shows "getConfig (snd (createAnnotation this annotation now rnd host)) (ap_bookKey this)
           = Some (config\<lparr>config_booknotes := Some (existingNotes host (ap_bookKey this)
               @ [mapSDKAnnotationToBookNote annotation (getBookHash host (ap_bookKey this)) None now rnd])\<rparr>)"
  using updateBooknotes_present(2)[OF assms]
  by (simp add: createAnnotation_def Let_def case_prod_beta)

lemma fst_createAnnotation:
  "fst (createAnnotation this annotation now rnd host)
     = mapBookNoteToSDKAnnotation
         (mapSDKAnnotationToBookNote annotation (getBookHash host (ap_bookKey this)) None now rnd)
         (ap_pluginId this)"
  by (simp add: createAnnotation_def Let_def split: prod.splits)

lemma new_note_live [simp]:
  "note_deletedAt (mapSDKAnnotationToBookNote annotation bookHash cfi now rnd) = None"
  by (simp add: mapSDKAnnotationToBookNote_def Let_def split: prod.splits)

lemma new_note_type [simp]:
  "note_type (mapSDKAnnotationToBookNote annotation bookHash cfi now rnd)
     = mapSDKTypeToReadestNoteType (new_type annotation)"
  by (simp add: mapSDKAnnotationToBookNote_def Let_def split: prod.splits)

lemma new_note_times [simp]:
  "note_createdAt (mapSDKAnnotationToBookNote annotation bookHash cfi now rnd) = now"
  "note_updatedAt (mapSDKAnnotationToBookNote annotation bookHash cfi now rnd) = now"
  by (simp_all add: mapSDKAnnotationToBookNote_def Let_def split: prod.splits)

lemma mapped_fields:
  assumes "mapBookNoteToSDKAnnotation note pluginId = Inr a"
  shows "ann_type a = mapReadestNoteTypeToSDK (note_type note)"
    and "ann_chapterIndex a = extractSectionIndexFromCFI (note_cfi note)"
    and "ann_id a = note_id note"
  using assms
  by (auto simp: mapBookNoteToSDKAnnotation_def toISOString_def Let_def
      split: if_splits)

lemma mapped_valid:
  assumes "validTimeValue (note_createdAt note)" and "validTimeValue (note_updatedAt note)"
  shows "\<exists>a. mapBookNoteToSDKAnnotation note pluginId = Inr a"
  using assms by (simp add: mapBookNoteToSDKAnnotation_def toISOString_def Let_def)

lemma mapOrThrow_source:
  "mapOrThrow f xs = Inr ys \<Longrightarrow> y \<in> set ys \<Longrightarrow> \<exists>x \<in> set xs. f x = Inr y"
  by (induction xs arbitrary: ys) (auto split: sum.splits)

lemma mapOrThrow_image:
  "mapOrThrow f xs = Inr ys \<Longrightarrow> x \<in> set xs \<Longrightarrow> \<exists>y \<in> set ys. f x = Inr y"
  by (induction xs arbitrary: ys) (auto split: sum.splits)

lemma mapOrThrow_returns:
  "\<forall>x \<in> set xs. \<exists>y. f x = Inr y \<Longrightarrow> \<exists>ys. mapOrThrow f xs = Inr ys"
  by (induction xs) (auto split: sum.splits)

text \<open>
  With a config in the store and valid time values on the live notes,
  \<open>getAnnotations\<close> returns, and returns an annotation for every live note.
\<close>

lemma getAnnotations_returns:
  assumes cfg: "getConfig host (ap_bookKey this) = Some config"
    and stored: "config_booknotes config = Some booknotes"
    and valid: "\<forall>m \<in> set booknotes. \<not> truthyNumber (note_deletedAt m) \<longrightarrow>
                  validTimeValue (note_createdAt m) \<and> validTimeValue (note_updatedAt m)"
  shows "\<exists>annotations. getAnnotations this None host = Inr annotations
           \<and> (\<forall>m \<in> set booknotes. \<not> truthyNumber (note_deletedAt m) \<longrightarrow>
                 (\<exists>a \<in> set annotations. mapBookNoteToSDKAnnotation m (ap_pluginId this) = Inr a))"
proof -
  let ?f = "\<lambda>note. mapBookNoteToSDKAnnotation note (ap_pluginId this)"
  let ?live = "filter (\<lambda>note. \<not> truthyNumber (note_deletedAt note)) booknotes"
  have "\<forall>x \<in> set ?live. \<exists>y. ?f x = Inr y"
    using valid by (auto intro: mapped_valid)
  then obtain ys where ys: "mapOrThrow ?f ?live = Inr ys"
    using mapOrThrow_returns[of ?live ?f] by blast
  have g: "getAnnotations this None host = Inr ys"
    using cfg stored ys by (simp add: getAnnotations_def Let_def)
  have "\<forall>m \<in> set booknotes. \<not> truthyNumber (note_deletedAt m) \<longrightarrow>
          (\<exists>a \<in> set ys. ?f m = Inr a)"
    using mapOrThrow_image[OF ys] by auto
  with g show ?thesis by blast
qed

lemma getAnnotations_chapter:
  assumes "getAnnotations this None host = Inr annotations"
  shows "getAnnotations this (Some ci) host = Inr (filter (\<lambda>a. ann_chapterIndex a = ci) annotations)"
  using assms by (auto simp: getAnnotations_def Let_def split: option.splits sum.splits)

lemma created_is_listed:
  assumes cfg: "getConfig host (ap_bookKey this) = Some config"
    and valid: "\<forall>m \<in> set (existingNotes host (ap_bookKey this)).
                  \<not> truthyNumber (note_deletedAt m) \<longrightarrow>
                  validTimeValue (note_createdAt m) \<and> validTimeValue (note_updatedAt m)"
    and clock: "validTimeValue now"
  shows "\<exists>a annotations.
           fst (createAnnotation this annotation now rnd host) = Inr a
           \<and> getAnnotations this None (snd (createAnnotation this annotation now rnd host))
               = Inr annotations
           \<and> a \<in> set annotations"
proof -
  let ?new = "mapSDKAnnotationToBookNote annotation (getBookHash host (ap_bookKey this)) None now rnd"
  let ?all = "existingNotes host (ap_bookKey this) @ [?new]"
  let ?host' = "snd (createAnnotation this annotation now rnd host)"
  have cfg': "getConfig ?host' (ap_bookKey this) = Some (config\<lparr>config_booknotes := Some ?all\<rparr>)"
    by (rule getConfig_createAnnotation[OF cfg])
  have stored': "config_booknotes (config\<lparr>config_booknotes := Some ?all\<rparr>) = Some ?all" by simp
  have valid': "\<forall>m \<in> set ?all. \<not> truthyNumber (note_deletedAt m) \<longrightarrow>
                  validTimeValue (note_createdAt m) \<and> validTimeValue (note_updatedAt m)"
    using valid clock by auto
  from getAnnotations_returns[OF cfg' stored' valid']
  obtain annotations where g: "getAnnotations this None ?host' = Inr annotations"
    and every: "\<forall>m \<in> set ?all. \<not> truthyNumber (note_deletedAt m) \<longrightarrow>
                 (\<exists>a \<in> set annotations. mapBookNoteToSDKAnnotation m (ap_pluginId this) = Inr a)"
    by blast
  have "?new \<in> set ?all" by simp
  moreover have "\<not> truthyNumber (note_deletedAt ?new)" by (simp add: truthyNumber_def)
  ultimately obtain a where "a \<in> set annotations"
    and "mapBookNoteToSDKAnnotation ?new (ap_pluginId this) = Inr a"
    using every by blast
  with g show ?thesis by (auto simp: fst_createAnnotation)
qed

lemma listed_never_footnote:
  assumes "getAnnotations this ci host = Inr annotations" and "a \<in> set annotations"
  shows "ann_type a \<noteq> Footnote"
proof -
  have nf: "mapReadestNoteTypeToSDK t \<noteq> Footnote" for t by (cases t) simp_all
  from assms obtain booknotes ys where ys:
    "mapOrThrow (\<lambda>note. mapBookNoteToSDKAnnotation note (ap_pluginId this))
       (filter (\<lambda>note. \<not> truthyNumber (note_deletedAt note)) booknotes) = Inr ys"
    and a: "a \<in> set ys"
    by (auto simp: getAnnotations_def Let_def split: option.splits sum.splits)
  from mapOrThrow_source[OF ys a] obtain m
    where "mapBookNoteToSDKAnnotation m (ap_pluginId this) = Inr a" by blast
  then have "ann_type a = mapReadestNoteTypeToSDK (note_type m)" by (rule mapped_fields(1))
  with nf show ?thesis by simp
qed

lemma listed_ids_live:
  assumes cfg: "getConfig host (ap_bookKey this) = Some config"
    and stored: "config_booknotes config = Some booknotes"
    and g: "getAnnotations this ci host = Inr annotations"
    and a: "a \<in> set annotations"
  shows "\<exists>m \<in> set booknotes. note_id m = ann_id a \<and> \<not> truthyNumber (note_deletedAt m)"
proof -
  from cfg stored g a obtain ys where ys:
    "mapOrThrow (\<lambda>note. mapBookNoteToSDKAnnotation note (ap_pluginId this))
       (filter (\<lambda>note. \<not> truthyNumber (note_deletedAt note)) booknotes) = Inr ys"
    and a': "a \<in> set ys"
    by (auto simp: getAnnotations_def Let_def split: option.splits sum.splits)
  from mapOrThrow_source[OF ys a'] obtain m
    where m: "m \<in> set booknotes" "\<not> truthyNumber (note_deletedAt m)"
      and "mapBookNoteToSDKAnnotation m (ap_pluginId this) = Inr a" by auto
  from this(3) have "ann_id a = note_id m" by (rule mapped_fields(3))
  with m show ?thesis by auto
qed

lemma findIndex_None: "findIndex p xs = None \<longleftrightarrow> (\<forall>x \<in> set xs. \<not> p x)"
  by (induction xs) (auto split: option.splits)

lemma findIndex_Some:
  "findIndex p xs = Some i \<Longrightarrow> i < length xs \<and> p (xs ! i)"
  by (induction xs arbitrary: i) (auto split: if_splits option.splits)

lemma occurs_once_unique:
  "length (filter p xs) = 1 \<Longrightarrow> i < length xs \<Longrightarrow> j < length xs \<Longrightarrow> p (xs ! i) \<Longrightarrow> p (xs ! j)
     \<Longrightarrow> i = j"
proof (induction xs arbitrary: i j)
  case Nil
  then show ?case by simp
next
  case (Cons x xs)
  show ?case
  proof (cases "p x")
    case True
    with Cons.prems(1) have "filter p xs = []" by simp
    then have none: "\<forall>y \<in> set xs. \<not> p y" by (simp add: filter_empty_conv)
    have "i = 0"
    proof (rule ccontr)
      assume "i \<noteq> 0"
      then obtain i' where "i = Suc i'" by (cases i) auto
      with Cons.prems(2,4) none show False by auto
    qed
    moreover have "j = 0"
    proof (rule ccontr)
      assume "j \<noteq> 0"
      then obtain j' where "j = Suc j'" by (cases j) auto
      with Cons.prems(3,5) none show False by auto
    qed
    ultimately show ?thesis by simp
  next
    case False
    with Cons.prems(1) have len: "length (filter p xs) = 1" by simp
    from False Cons.prems(4) obtain i' where i: "i = Suc i'" by (cases i) auto
    from False Cons.prems(5) obtain j' where j: "j = Suc j'" by (cases j) auto
    from Cons.IH[OF len, of i' j'] Cons.prems i j show ?thesis by simp
  qed
qed

lemma elementAt_nth: "i < length xs \<Longrightarrow> elementAt xs (int i) = Some (xs ! i)"
  by (simp add: elementAt_def)

lemma getConfig_deleteAnnotation:
  assumes "getConfig host (ap_bookKey this) = Some config"
    and "config_booknotes config = Some booknotes"
    and "findIndex (\<lambda>n. note_id n = annotationId) booknotes = Some i"
  shows "getConfig (deleteAnnotation this annotationId nowDeleted nowUpdated host) (ap_bookKey this)
           = Some (config\<lparr>config_booknotes := Some (booknotes[i :=
                (booknotes ! i)\<lparr>note_deletedAt := Some nowDeleted, note_updatedAt := nowUpdated\<rparr>])\<rparr>)"
proof -
  from findIndex_Some[OF assms(3)] have "i < length booknotes" by simp
  then have el: "elementAt booknotes (int i) = Some (booknotes ! i)" by (rule elementAt_nth)
  show ?thesis
    using assms updateBooknotes_present(2)[OF assms(1)] el
    by (simp add: deleteAnnotation_def Let_def case_prod_beta)
qed

lemma deleteAnnotation_absent:
  assumes "annotationId \<notin> note_id ` set (existingNotes host (ap_bookKey this))"
  shows "deleteAnnotation this annotationId nowDeleted nowUpdated host = host"
proof (cases "getConfig host (ap_bookKey this)")
  case None
  then show ?thesis by (simp add: deleteAnnotation_def)
next
  case (Some config)
  show ?thesis
  proof (cases "config_booknotes config")
    case None
    with Some show ?thesis by (simp add: deleteAnnotation_def)
  next
    case (Some booknotes)
    with \<open>getConfig host (ap_bookKey this) = Some config\<close> assms
    have "\<forall>n \<in> set booknotes. note_id n \<noteq> annotationId"
      by (auto simp: existingNotes_def)
    then have "findIndex (\<lambda>n. note_id n = annotationId) booknotes = None"
      by (simp add: findIndex_None)
    with Some \<open>getConfig host (ap_bookKey this) = Some config\<close> show ?thesis
      by (simp add: deleteAnnotation_def)
  qed
qed

section \<open>Annotation types\<close>

text \<open>
  Claim C9, as the code has it. Mapping a Readest note type to the SDK and back is
  the identity on the three Readest types (bookmark to sidebar, annotation to
  highlight, excerpt to comment, and back). The other composition is not the
  identity: the SDK type footnote maps to the Readest type annotation and from there
  to highlight. So an annotation of type footnote that \<open>createAnnotation\<close> returns
  has type highlight, and it does return one when the clock reading is a valid time
  value. The annotation is listed afterwards, with type highlight, when the store
  holds a config for the provider's book key and the live notes stored there carry
  valid time values: \<open>getAnnotations\<close> with no chapter filter then returns a list,
  and the annotation that was returned is in it. No list \<open>getAnnotations\<close> returns
  ever holds an annotation of type footnote.
\<close>

theorem note_type_round_trip:
  "(\<forall>t. mapSDKTypeToReadestNoteType (mapReadestNoteTypeToSDK t) = t)
   \<and> mapReadestNoteTypeToSDK Bookmark = Sidebar
   \<and> mapReadestNoteTypeToSDK Annotation = Highlight
   \<and> mapReadestNoteTypeToSDK Excerpt = Comment
   \<and> mapSDKTypeToReadestNoteType Footnote = Annotation
   \<and> mapReadestNoteTypeToSDK (mapSDKTypeToReadestNoteType Footnote) = Highlight
   \<and> (new_type annotation = Footnote \<longrightarrow>
        (\<forall>a. fst (createAnnotation this annotation now rnd host) = Inr a \<longrightarrow>
              ann_type a = Highlight))
   \<and> (new_type annotation = Footnote \<and> validTimeValue now \<longrightarrow>
        (\<exists>a. fst (createAnnotation this annotation now rnd host) = Inr a
              \<and> ann_type a = Highlight))
   \<and> (new_type annotation = Footnote \<and> validTimeValue now
        \<and> getConfig host (ap_bookKey this) \<noteq> None
        \<and> (\<forall>m \<in> set (existingNotes host (ap_bookKey this)).
              \<not> truthyNumber (note_deletedAt m) \<longrightarrow>
              validTimeValue (note_createdAt m) \<and> validTimeValue (note_updatedAt m)) \<longrightarrow>
        (\<exists>a annotations.
           fst (createAnnotation this annotation now rnd host) = Inr a
           \<and> getAnnotations this None (snd (createAnnotation this annotation now rnd host))
               = Inr annotations
           \<and> a \<in> set annotations \<and> ann_type a = Highlight))
   \<and> (\<forall>annotations. getAnnotations this ci host = Inr annotations \<longrightarrow>
        (\<forall>a \<in> set annotations. ann_type a \<noteq> Footnote))"
proof -
  let ?created = "fst (createAnnotation this annotation now rnd host)"
  let ?host' = "snd (createAnnotation this annotation now rnd host)"
  have rt: "mapSDKTypeToReadestNoteType (mapReadestNoteTypeToSDK t) = t" for t
    by (cases t) simp_all
  have ret: "ann_type a = Highlight" if "new_type annotation = Footnote" and "?created = Inr a" for a
    using mapped_fields(1)[OF that(2)[unfolded fst_createAnnotation]] that(1) by simp
  have some: "\<exists>a. ?created = Inr a" if "validTimeValue now"
    unfolding fst_createAnnotation using that by (intro mapped_valid) simp_all
  have returned: "\<exists>a. ?created = Inr a \<and> ann_type a = Highlight"
    if "new_type annotation = Footnote \<and> validTimeValue now"
    using some ret that by blast
  have listed: "\<exists>a annotations. ?created = Inr a
           \<and> getAnnotations this None ?host' = Inr annotations
           \<and> a \<in> set annotations \<and> ann_type a = Highlight"
    if h: "new_type annotation = Footnote \<and> validTimeValue now
        \<and> getConfig host (ap_bookKey this) \<noteq> None
        \<and> (\<forall>m \<in> set (existingNotes host (ap_bookKey this)).
              \<not> truthyNumber (note_deletedAt m) \<longrightarrow>
              validTimeValue (note_createdAt m) \<and> validTimeValue (note_updatedAt m))"
  proof -
    from h obtain config where cfg: "getConfig host (ap_bookKey this) = Some config" by auto
    from h have valid: "\<forall>m \<in> set (existingNotes host (ap_bookKey this)).
              \<not> truthyNumber (note_deletedAt m) \<longrightarrow>
              validTimeValue (note_createdAt m) \<and> validTimeValue (note_updatedAt m)"
      and clock: "validTimeValue now" by simp_all
    from created_is_listed[OF cfg valid clock, of annotation rnd]
    obtain a annotations where "?created = Inr a"
      "getAnnotations this None ?host' = Inr annotations" "a \<in> set annotations"
      by blast
    with ret h show ?thesis by blast
  qed
  have never: "\<forall>annotations. getAnnotations this ci host = Inr annotations \<longrightarrow>
        (\<forall>a \<in> set annotations. ann_type a \<noteq> Footnote)"
    using listed_never_footnote by blast
  have maps: "mapReadestNoteTypeToSDK Bookmark = Sidebar"
    "mapReadestNoteTypeToSDK Annotation = Highlight"
    "mapReadestNoteTypeToSDK Excerpt = Comment"
    "mapSDKTypeToReadestNoteType Footnote = Annotation"
    "mapReadestNoteTypeToSDK (mapSDKTypeToReadestNoteType Footnote) = Highlight"
    by simp_all
  from rt have rt': "\<forall>t. mapSDKTypeToReadestNoteType (mapReadestNoteTypeToSDK t) = t" by blast
  from ret have ret': "new_type annotation = Footnote \<longrightarrow>
        (\<forall>a. ?created = Inr a \<longrightarrow> ann_type a = Highlight)" by blast
  from returned have returned': "new_type annotation = Footnote \<and> validTimeValue now \<longrightarrow>
        (\<exists>a. ?created = Inr a \<and> ann_type a = Highlight)" by blast
  from listed have listed': "new_type annotation = Footnote \<and> validTimeValue now
        \<and> getConfig host (ap_bookKey this) \<noteq> None
        \<and> (\<forall>m \<in> set (existingNotes host (ap_bookKey this)).
              \<not> truthyNumber (note_deletedAt m) \<longrightarrow>
              validTimeValue (note_createdAt m) \<and> validTimeValue (note_updatedAt m)) \<longrightarrow>
        (\<exists>a annotations. ?created = Inr a
           \<and> getAnnotations this None ?host' = Inr annotations
           \<and> a \<in> set annotations \<and> ann_type a = Highlight)" by blast
  show ?thesis
    by (intro conjI rt' maps ret' returned' listed' never)
qed

theorem note_type_round_trip_witness:
  "new_type footnoteInChapter3 = Footnote
   \<and> validTimeValue 1700000001000
   \<and> getConfig (hostWith [noteA]) (ap_bookKey (createAnnotationAPI (hostWith [noteA]))) \<noteq> None
   \<and> (\<exists>a annotations.
         fst (createAnnotation (createAnnotationAPI (hostWith [noteA])) footnoteInChapter3
                1700000001000 ''k3x9zq'' (hostWith [noteA])) = Inr a
         \<and> getAnnotations (createAnnotationAPI (hostWith [noteA])) None
                (snd (createAnnotation (createAnnotationAPI (hostWith [noteA])) footnoteInChapter3
                   1700000001000 ''k3x9zq'' (hostWith [noteA]))) = Inr annotations
         \<and> a \<in> set annotations \<and> ann_type a = Highlight)"
proof -
  have t: "new_type footnoteInChapter3 = Footnote"
    by (simp add: footnoteInChapter3_def)
  have v: "validTimeValue 1700000001000"
    by (simp add: validTimeValue_def)
  have c: "getConfig (hostWith [noteA]) (ap_bookKey (createAnnotationAPI (hostWith [noteA]))) \<noteq> None"
    by (simp add: getConfig_def hostWith_def createAnnotationAPI_def bookKeyAccessor_def)
  have s: "\<forall>m \<in> set (existingNotes (hostWith [noteA])
                        (ap_bookKey (createAnnotationAPI (hostWith [noteA])))).
             \<not> truthyNumber (note_deletedAt m) \<longrightarrow>
             validTimeValue (note_createdAt m) \<and> validTimeValue (note_updatedAt m)"
    by (simp add: existingNotes_def getConfig_def hostWith_def createAnnotationAPI_def
        bookKeyAccessor_def noteA_def validTimeValue_def)
  show ?thesis
    using t v c s
      note_type_round_trip [where annotation = footnoteInChapter3
        and this = "createAnnotationAPI (hostWith [noteA])" and host = "hostWith [noteA]"
        and now = 1700000001000 and rnd = "''k3x9zq''"]
    by blast
qed

text \<open>
  Claim C9 as stated fails where the store holds no config for the provider's book
  key (here: no book is open, so the key is the empty string). \<open>createAnnotation\<close>
  returns the annotation, with type highlight, but \<open>updateBooknotes\<close> had no config
  to put the note in, and the list \<open>getAnnotations\<close> returns afterwards is empty.
\<close>

theorem note_type_round_trip_counterexample:
  "new_type footnoteInChapter3 = Footnote
   \<and> (\<exists>a. fst (createAnnotation (createAnnotationAPI emptyHost) footnoteInChapter3
                 1700000001000 ''k3x9zq'' emptyHost) = Inr a
          \<and> ann_type a = Highlight)
   \<and> getAnnotations (createAnnotationAPI emptyHost) None
        (snd (createAnnotation (createAnnotationAPI emptyHost) footnoteInChapter3
           1700000001000 ''k3x9zq'' emptyHost)) = Inr []"
proof -
  let ?api = "createAnnotationAPI emptyHost"
  have t: "new_type footnoteInChapter3 = Footnote"
    by (simp add: footnoteInChapter3_def)
  have "\<exists>a. fst (createAnnotation ?api footnoteInChapter3 1700000001000 ''k3x9zq'' emptyHost)
               = Inr a"
    unfolding fst_createAnnotation by (intro mapped_valid) (simp_all add: validTimeValue_def)
  then obtain a
    where a: "fst (createAnnotation ?api footnoteInChapter3 1700000001000 ''k3x9zq'' emptyHost)
               = Inr a" by blast
  from mapped_fields(1)[OF a[unfolded fst_createAnnotation]] t
  have h: "ann_type a = Highlight" by simp
  have "getConfig emptyHost k = None" for k
    by (simp add: getConfig_def emptyHost_def)
  then have "getConfig (snd (createAnnotation ?api footnoteInChapter3 1700000001000 ''k3x9zq''
                emptyHost)) (ap_bookKey ?api) = None"
    by (simp add: createAnnotation_def Let_def case_prod_beta updateBooknotes_def emptyHost_def
        getConfig_def renderAnnotation_def persist_def)
  then have g: "getAnnotations ?api None
        (snd (createAnnotation ?api footnoteInChapter3 1700000001000 ''k3x9zq'' emptyHost))
          = Inr []"
    by (simp add: getAnnotations_def)
  from t a h g show ?thesis by blast
qed

section \<open>Synthesized CFIs\<close>

text \<open>
  Claim C10, as the code has it. For an integer chapter index \<open>n\<close> from \<open>0\<close> up to
  the largest safe integer \<open>2 ^ 53 - 1\<close>, an annotation without a \<^verbatim>\<open>cfi\<close> entry in
  its metadata, mapped without an explicit CFI, gets the CFI
  \<^verbatim>\<open>epubcfi(/6/<(n+1)*2>!)\<close>, and \<open>extractSectionIndexFromCFI\<close> reads \<open>n\<close> back
  from that string. So an annotation \<open>createAnnotation\<close> returns has chapter index
  \<open>n\<close>, and it does return one when the clock reading is a valid time value; when
  moreover the store holds a config for the provider's book key and the live notes
  stored there carry valid time values, \<open>getAnnotations\<close> filtered by chapter \<open>n\<close>
  returns a list afterwards, and the annotation is in that list.
\<close>

theorem synthesized_cfi_round_trip:
  assumes "0 \<le> n" and "n < 2 ^ 53"
    and "new_chapterIndex annotation = n" and "metadataCfi annotation = None"
  shows "note_cfi (mapSDKAnnotationToBookNote annotation bookHash None now rnd)
           = ''epubcfi(/6/'' @ numberToString ((n + 1) * 2) @ ''!)''
       \<and> extractSectionIndexFromCFI (''epubcfi(/6/'' @ numberToString ((n + 1) * 2) @ ''!)'') = n
       \<and> (\<forall>a. fst (createAnnotation this annotation now rnd host) = Inr a \<longrightarrow>
              ann_chapterIndex a = n)
       \<and> (validTimeValue now \<longrightarrow>
            (\<exists>a. fst (createAnnotation this annotation now rnd host) = Inr a
                  \<and> ann_chapterIndex a = n))
       \<and> (validTimeValue now
            \<and> getConfig host (ap_bookKey this) \<noteq> None
            \<and> (\<forall>m \<in> set (existingNotes host (ap_bookKey this)).
                  \<not> truthyNumber (note_deletedAt m) \<longrightarrow>
                  validTimeValue (note_createdAt m) \<and> validTimeValue (note_updatedAt m)) \<longrightarrow>
            (\<exists>a annotations.
               fst (createAnnotation this annotation now rnd host) = Inr a
               \<and> getAnnotations this (Some n)
                    (snd (createAnnotation this annotation now rnd host)) = Inr annotations
               \<and> a \<in> set annotations))"
proof -
  let ?created = "fst (createAnnotation this annotation now rnd host)"
  let ?host' = "snd (createAnnotation this annotation now rnd host)"
  have cfi: "note_cfi (mapSDKAnnotationToBookNote annotation bh None now rnd)
           = ''epubcfi(/6/'' @ numberToString ((n + 1) * 2) @ ''!)''" for bh
    using assms(3,4) step_exact[OF assms(1,2)]
    by (simp add: mapSDKAnnotationToBookNote_def Let_def split: prod.splits)
  have ext: "extractSectionIndexFromCFI (''epubcfi(/6/'' @ numberToString ((n + 1) * 2) @ ''!)'') = n"
    using assms(1,2) by (rule extract_synth)
  have idx: "ann_chapterIndex a = n" if "?created = Inr a" for a
    using mapped_fields(2)[OF that[unfolded fst_createAnnotation]] by (simp only: cfi ext)
  have inc: "\<exists>a annotations. ?created = Inr a
               \<and> getAnnotations this (Some n) ?host' = Inr annotations \<and> a \<in> set annotations"
    if h: "validTimeValue now
            \<and> getConfig host (ap_bookKey this) \<noteq> None
            \<and> (\<forall>m \<in> set (existingNotes host (ap_bookKey this)).
                  \<not> truthyNumber (note_deletedAt m) \<longrightarrow>
                  validTimeValue (note_createdAt m) \<and> validTimeValue (note_updatedAt m))"
  proof -
    from h obtain config where cfg: "getConfig host (ap_bookKey this) = Some config" by auto
    from h have valid: "\<forall>m \<in> set (existingNotes host (ap_bookKey this)).
              \<not> truthyNumber (note_deletedAt m) \<longrightarrow>
              validTimeValue (note_createdAt m) \<and> validTimeValue (note_updatedAt m)"
      and clock: "validTimeValue now" by simp_all
    from created_is_listed[OF cfg valid clock, of annotation rnd]
    obtain a annotations where a: "?created = Inr a"
      and g: "getAnnotations this None ?host' = Inr annotations" and m: "a \<in> set annotations"
      by blast
    from m idx[OF a] have "a \<in> set (filter (\<lambda>a. ann_chapterIndex a = n) annotations)" by simp
    with a getAnnotations_chapter[OF g, of n] show ?thesis by blast
  qed
  from idx have idx': "\<forall>a. ?created = Inr a \<longrightarrow> ann_chapterIndex a = n" by blast
  have "\<exists>a. ?created = Inr a" if "validTimeValue now"
    unfolding fst_createAnnotation using that by (intro mapped_valid) simp_all
  with idx have ret': "validTimeValue now \<longrightarrow> (\<exists>a. ?created = Inr a \<and> ann_chapterIndex a = n)"
    by blast
  from inc have inc': "validTimeValue now
            \<and> getConfig host (ap_bookKey this) \<noteq> None
            \<and> (\<forall>m \<in> set (existingNotes host (ap_bookKey this)).
                  \<not> truthyNumber (note_deletedAt m) \<longrightarrow>
                  validTimeValue (note_createdAt m) \<and> validTimeValue (note_updatedAt m)) \<longrightarrow>
            (\<exists>a annotations. ?created = Inr a
               \<and> getAnnotations this (Some n) ?host' = Inr annotations \<and> a \<in> set annotations)"
    by blast
  show ?thesis by (intro conjI cfi ext idx' ret' inc')
qed

theorem synthesized_cfi_round_trip_witness:
  "(0::int) \<le> 3 \<and> (3::int) < 2 ^ 53
   \<and> new_chapterIndex footnoteInChapter3 = 3
   \<and> metadataCfi footnoteInChapter3 = None
   \<and> validTimeValue 1700000001000
   \<and> getConfig (hostWith [noteA]) (ap_bookKey (createAnnotationAPI (hostWith [noteA]))) \<noteq> None
   \<and> note_cfi (mapSDKAnnotationToBookNote footnoteInChapter3 (Some ''abc123'') None
         1700000001000 ''k3x9zq'') = ''epubcfi(/6/8!)''
   \<and> extractSectionIndexFromCFI ''epubcfi(/6/8!)'' = 3
   \<and> (\<exists>a annotations.
         fst (createAnnotation (createAnnotationAPI (hostWith [noteA])) footnoteInChapter3
                1700000001000 ''k3x9zq'' (hostWith [noteA])) = Inr a
         \<and> getAnnotations (createAnnotationAPI (hostWith [noteA])) (Some 3)
                (snd (createAnnotation (createAnnotationAPI (hostWith [noteA])) footnoteInChapter3
                   1700000001000 ''k3x9zq'' (hostWith [noteA]))) = Inr annotations
         \<and> a \<in> set annotations)"
proof -
  have n: "(0::int) \<le> 3" by simp
  have b: "(3::int) < 2 ^ 53" by simp
  have i: "new_chapterIndex footnoteInChapter3 = 3" by (simp add: footnoteInChapter3_def)
  have m: "metadataCfi footnoteInChapter3 = None" by (simp add: metadataCfi_def footnoteInChapter3_def)
  have v: "validTimeValue 1700000001000"
    by (simp add: validTimeValue_def)
  have c: "getConfig (hostWith [noteA]) (ap_bookKey (createAnnotationAPI (hostWith [noteA]))) \<noteq> None"
    by (simp add: getConfig_def hostWith_def createAnnotationAPI_def bookKeyAccessor_def)
  have s: "\<forall>m \<in> set (existingNotes (hostWith [noteA])
                        (ap_bookKey (createAnnotationAPI (hostWith [noteA])))).
             \<not> truthyNumber (note_deletedAt m) \<longrightarrow>
             validTimeValue (note_createdAt m) \<and> validTimeValue (note_updatedAt m)"
    by (simp add: existingNotes_def getConfig_def hostWith_def createAnnotationAPI_def
        bookKeyAccessor_def noteA_def validTimeValue_def)
  have "natToString 8 = ''8''" by code_simp
  then have e: "numberToString ((3 + 1) * 2) = ''8''"
    by (simp add: numberToString_def natNumberToString_def)
  show ?thesis
    using n b i m v c s e
      synthesized_cfi_round_trip [OF n b i m, where bookHash = "Some ''abc123''"
        and this = "createAnnotationAPI (hostWith [noteA])" and host = "hostWith [noteA]"
        and now = 1700000001000 and rnd = "''k3x9zq''"]
    by simp
qed

text \<open>
  Claim C10 as stated fails in two ways. At the chapter index \<open>2 ^ 53\<close> the sum
  \<open>n + 1\<close> rounds to \<open>2 ^ 53\<close>, the synthesized step is \<open>2 ^ 54\<close>, and the index read
  back from the CFI is \<open>2 ^ 53 - 1\<close>. And where the store holds no config for the
  provider's book key, the annotation created with chapter index \<open>3\<close> is returned
  with that index, but the list \<open>getAnnotations\<close> returns for chapter \<open>3\<close>
  afterwards is empty.
\<close>

theorem synthesized_cfi_round_trip_counterexample:
  "metadataCfi (footnoteInChapter3\<lparr>new_chapterIndex := 9007199254740992\<rparr>) = None
   \<and> extractSectionIndexFromCFI
        (note_cfi (mapSDKAnnotationToBookNote
           (footnoteInChapter3\<lparr>new_chapterIndex := 9007199254740992\<rparr>)
           (Some ''abc123'') None 1700000001000 ''k3x9zq''))
       = 9007199254740991
   \<and> new_chapterIndex footnoteInChapter3 = 3
   \<and> metadataCfi footnoteInChapter3 = None
   \<and> (\<exists>a. fst (createAnnotation (createAnnotationAPI emptyHost) footnoteInChapter3
                 1700000001000 ''k3x9zq'' emptyHost) = Inr a
          \<and> ann_chapterIndex a = 3)
   \<and> getAnnotations (createAnnotationAPI emptyHost) (Some 3)
        (snd (createAnnotation (createAnnotationAPI emptyHost) footnoteInChapter3
           1700000001000 ''k3x9zq'' emptyHost)) = Inr []"
proof -
  let ?api = "createAnnotationAPI emptyHost"
  let ?big = "footnoteInChapter3\<lparr>new_chapterIndex := 9007199254740992\<rparr>"
  have mb: "metadataCfi ?big = None" by (simp add: metadataCfi_def footnoteInChapter3_def)
  have "note_cfi (mapSDKAnnotationToBookNote ?big (Some ''abc123'') None 1700000001000 ''k3x9zq'')
          = ''epubcfi(/6/'' @ numberToString (jsMul (jsAdd 9007199254740992 1) 2) @ ''!)''"
    using mb by (simp add: mapSDKAnnotationToBookNote_def Let_def split: prod.splits)
  then have big: "extractSectionIndexFromCFI
        (note_cfi (mapSDKAnnotationToBookNote ?big (Some ''abc123'') None 1700000001000 ''k3x9zq''))
       = 9007199254740991"
    by (simp only: extract_synth_unsafe)
  have i: "new_chapterIndex footnoteInChapter3 = 3" by (simp add: footnoteInChapter3_def)
  have m: "metadataCfi footnoteInChapter3 = None" by (simp add: metadataCfi_def footnoteInChapter3_def)
  have "\<exists>a. fst (createAnnotation ?api footnoteInChapter3 1700000001000 ''k3x9zq'' emptyHost)
               = Inr a"
    unfolding fst_createAnnotation by (intro mapped_valid) (simp_all add: validTimeValue_def)
  then obtain a
    where a: "fst (createAnnotation ?api footnoteInChapter3 1700000001000 ''k3x9zq'' emptyHost)
               = Inr a" by blast
  have cfi: "note_cfi (mapSDKAnnotationToBookNote footnoteInChapter3 bh None 1700000001000 ''k3x9zq'')
           = ''epubcfi(/6/'' @ numberToString ((3 + 1) * 2) @ ''!)''" for bh
    using i m step_exact[of 3]
    by (simp add: mapSDKAnnotationToBookNote_def Let_def split: prod.splits)
  have ext: "extractSectionIndexFromCFI (''epubcfi(/6/'' @ numberToString ((3 + 1) * 2) @ ''!)'') = 3"
    by (rule extract_synth) simp_all
  from mapped_fields(2)[OF a[unfolded fst_createAnnotation]]
  have three: "ann_chapterIndex a = 3" by (simp only: cfi ext)
  have "getConfig (snd (createAnnotation ?api footnoteInChapter3 1700000001000 ''k3x9zq''
                emptyHost)) (ap_bookKey ?api) = None"
    by (simp add: createAnnotation_def Let_def case_prod_beta updateBooknotes_def emptyHost_def
        getConfig_def renderAnnotation_def persist_def)
  then have g: "getAnnotations ?api (Some 3)
        (snd (createAnnotation ?api footnoteInChapter3 1700000001000 ''k3x9zq'' emptyHost))
          = Inr []"
    by (simp add: getAnnotations_def)
  from mb big i m a three g show ?thesis by blast
qed

section \<open>Soft delete\<close>

lemma savedConfigs_renderAnnotation [simp]:
  "host_savedConfigs (renderAnnotation key note remove host) = host_savedConfigs host"
  by (auto simp: renderAnnotation_def split: option.splits)

lemma savedConfigs_updateBooknotes [simp]:
  "host_savedConfigs (fst (updateBooknotes key ns host)) = host_savedConfigs host"
  by (auto simp: updateBooknotes_def Let_def split: option.splits)

lemma savedConfigs_deleteAnnotation:
  assumes "getConfig host (ap_bookKey this) = Some config"
    and "config_booknotes config = Some booknotes"
    and "findIndex (\<lambda>n. note_id n = annotationId) booknotes = Some i"
  shows "host_savedConfigs (deleteAnnotation this annotationId nowDeleted nowUpdated host)
           = host_savedConfigs host
               @ [(ap_bookKey this, config\<lparr>config_booknotes := Some (booknotes[i :=
                    (booknotes ! i)\<lparr>note_deletedAt := Some nowDeleted, note_updatedAt := nowUpdated\<rparr>])\<rparr>)]"
proof -
  from findIndex_Some[OF assms(3)] have "i < length booknotes" by simp
  then have el: "elementAt booknotes (int i) = Some (booknotes ! i)" by (rule elementAt_nth)
  show ?thesis
    using assms updateBooknotes_present(1)[OF assms(1)] el
    by (simp add: deleteAnnotation_def Let_def case_prod_beta persist_def saveConfig_def)
qed

text \<open>
  Claim C3, as the code has it. \<open>deleteAnnotation\<close> stamps the first record that
  carries the id, and only that one. For an id that exactly one record of the
  collection carries, and a clock reading other than \<open>0\<close> (a \<^verbatim>\<open>deletedAt\<close> of \<open>0\<close>
  is falsy and counts as not deleted): after \<open>deleteAnnotation\<close> no list that
  \<open>getAnnotations\<close> returns, with or without a chapter filter, has an annotation
  with the id, and \<open>getAnnotations\<close> does return a list when the live notes of the
  collection carry valid time values; the collection is the old one with that record
  stamped with \<^verbatim>\<open>deletedAt\<close> and \<^verbatim>\<open>updatedAt\<close>, every record still in its place, and
  the config with that collection is what is saved. Deleting an id that no record
  carries leaves the host as it was.
\<close>

theorem soft_delete_of_unique_id:
  assumes cfg: "getConfig host (ap_bookKey this) = Some config"
    and stored: "config_booknotes config = Some booknotes"
    and once: "length (filter (\<lambda>n. note_id n = annotationId) booknotes) = 1"
    and clock: "nowDeleted \<noteq> 0"
  shows "(\<forall>annotations.
            getAnnotations this chapterIndex
              (deleteAnnotation this annotationId nowDeleted nowUpdated host) = Inr annotations
            \<longrightarrow> annotationId \<notin> ann_id ` set annotations)
       \<and> ((\<forall>m \<in> set booknotes. \<not> truthyNumber (note_deletedAt m) \<longrightarrow>
              validTimeValue (note_createdAt m) \<and> validTimeValue (note_updatedAt m))
          \<longrightarrow> (\<exists>annotations.
                 getAnnotations this chapterIndex
                   (deleteAnnotation this annotationId nowDeleted nowUpdated host)
                   = Inr annotations))
       \<and> (\<exists>i < length booknotes.
            note_id (booknotes ! i) = annotationId
            \<and> existingNotes (deleteAnnotation this annotationId nowDeleted nowUpdated host)
                 (ap_bookKey this)
               = booknotes[i := (booknotes ! i)\<lparr>note_deletedAt := Some nowDeleted,
                                                note_updatedAt := nowUpdated\<rparr>]
            \<and> host_savedConfigs (deleteAnnotation this annotationId nowDeleted nowUpdated host)
               = host_savedConfigs host
                   @ [(ap_bookKey this,
                       config\<lparr>config_booknotes := Some (booknotes[i :=
                         (booknotes ! i)\<lparr>note_deletedAt := Some nowDeleted,
                                            note_updatedAt := nowUpdated\<rparr>])\<rparr>)])
       \<and> (absentId \<notin> note_id ` set booknotes \<longrightarrow>
            deleteAnnotation this absentId nowDeleted nowUpdated host = host)"
proof -
  let ?p = "\<lambda>n. note_id n = annotationId"
  let ?host' = "deleteAnnotation this annotationId nowDeleted nowUpdated host"
  from once have "filter ?p booknotes \<noteq> []" by auto
  then have "\<exists>x \<in> set booknotes. ?p x" by (simp add: filter_empty_conv)
  then have "findIndex ?p booknotes \<noteq> None" by (simp add: findIndex_None)
  then obtain i where i: "findIndex ?p booknotes = Some i" by auto
  from findIndex_Some[OF i] have ilen: "i < length booknotes" and pi: "?p (booknotes ! i)" by simp_all
  let ?stamped = "(booknotes ! i)\<lparr>note_deletedAt := Some nowDeleted, note_updatedAt := nowUpdated\<rparr>"
  let ?notes' = "booknotes[i := ?stamped]"
  let ?config' = "config\<lparr>config_booknotes := Some ?notes'\<rparr>"
  have cfg': "getConfig ?host' (ap_bookKey this) = Some ?config'"
    by (rule getConfig_deleteAnnotation[OF cfg stored i])
  have stored': "config_booknotes ?config' = Some ?notes'" by simp
  have live: "\<not> (\<exists>m \<in> set ?notes'. note_id m = annotationId \<and> \<not> truthyNumber (note_deletedAt m))"
  proof
    assume "\<exists>m \<in> set ?notes'. note_id m = annotationId \<and> \<not> truthyNumber (note_deletedAt m)"
    then obtain m where m: "m \<in> set ?notes'" "note_id m = annotationId"
      "\<not> truthyNumber (note_deletedAt m)" by blast
    from m(1) obtain j where j: "j < length booknotes" "m = ?notes' ! j"
      by (auto simp: in_set_conv_nth)
    show False
    proof (cases "j = i")
      case True
      with j ilen have "m = ?stamped" by simp
      with m(3) clock show False by (simp add: truthyNumber_def)
    next
      case False
      with j have "m = booknotes ! j" by simp
      with m(2) have "?p (booknotes ! j)" by simp
      from occurs_once_unique[OF once ilen j(1) pi this] False show False by simp
    qed
  qed
  have listed: "annotationId \<notin> ann_id ` set annotations"
    if g: "getAnnotations this chapterIndex ?host' = Inr annotations" for annotations
  proof
    assume "annotationId \<in> ann_id ` set annotations"
    then obtain a where a: "a \<in> set annotations" "ann_id a = annotationId" by auto
    from listed_ids_live[OF cfg' stored' g a(1)] a(2) live show False by auto
  qed
  have returns: "\<exists>annotations. getAnnotations this chapterIndex ?host' = Inr annotations"
    if valid: "\<forall>m \<in> set booknotes. \<not> truthyNumber (note_deletedAt m) \<longrightarrow>
              validTimeValue (note_createdAt m) \<and> validTimeValue (note_updatedAt m)"
  proof -
    have valid': "\<forall>m \<in> set ?notes'. \<not> truthyNumber (note_deletedAt m) \<longrightarrow>
              validTimeValue (note_createdAt m) \<and> validTimeValue (note_updatedAt m)"
    proof (intro ballI impI)
      fix m
      assume m: "m \<in> set ?notes'" and l: "\<not> truthyNumber (note_deletedAt m)"
      from m have "m = ?stamped \<or> m \<in> set booknotes"
        using set_update_subset_insert[of booknotes i ?stamped] by auto
      moreover from l clock have "m \<noteq> ?stamped" by (auto simp: truthyNumber_def)
      ultimately have "m \<in> set booknotes" by simp
      with valid l show "validTimeValue (note_createdAt m) \<and> validTimeValue (note_updatedAt m)"
        by simp
    qed
    from getAnnotations_returns[OF cfg' stored' valid']
    obtain annotations where g: "getAnnotations this None ?host' = Inr annotations" by blast
    show ?thesis
    proof (cases chapterIndex)
      case None
      with g show ?thesis by blast
    next
      case (Some ci)
      with getAnnotations_chapter[OF g, of ci] show ?thesis by blast
    qed
  qed
  have kept: "existingNotes ?host' (ap_bookKey this) = ?notes'"
    using cfg' by (simp add: existingNotes_def)
  have saved: "host_savedConfigs ?host' = host_savedConfigs host
                   @ [(ap_bookKey this, config\<lparr>config_booknotes := Some ?notes'\<rparr>)]"
    by (rule savedConfigs_deleteAnnotation[OF cfg stored i])
  have absent: "absentId \<notin> note_id ` set booknotes \<Longrightarrow>
            deleteAnnotation this absentId nowDeleted nowUpdated host = host"
    using deleteAnnotation_absent[of absentId host this] cfg stored by (simp add: existingNotes_def)
  from listed returns kept saved ilen pi absent show ?thesis by blast
qed

theorem soft_delete_of_unique_id_witness:
  "getConfig (hostWith [noteA, noteB]) ''abc123-1'' = Some \<lparr>config_booknotes = Some [noteA, noteB]\<rparr>
   \<and> length (filter (\<lambda>n. note_id n = ''n1'') [noteA, noteB]) = 1
   \<and> (\<exists>annotations.
         getAnnotations \<lparr>ap_bookKey = ''abc123-1'', ap_pluginId = ''readest''\<rparr> None
           (deleteAnnotation \<lparr>ap_bookKey = ''abc123-1'', ap_pluginId = ''readest''\<rparr> ''n1''
              1700000002000 1700000002000 (hostWith [noteA, noteB])) = Inr annotations
         \<and> ''n1'' \<notin> ann_id ` set annotations)
   \<and> ''n9'' \<notin> note_id ` set [noteA, noteB]
   \<and> deleteAnnotation \<lparr>ap_bookKey = ''abc123-1'', ap_pluginId = ''readest''\<rparr> ''n9''
        1700000002000 1700000002000 (hostWith [noteA, noteB]) = hostWith [noteA, noteB]"
proof -
  have c: "getConfig (hostWith [noteA, noteB])
             (ap_bookKey \<lparr>ap_bookKey = ''abc123-1'', ap_pluginId = ''readest''\<rparr>)
           = Some \<lparr>config_booknotes = Some [noteA, noteB]\<rparr>"
    by (simp add: getConfig_def hostWith_def)
  have n: "config_booknotes \<lparr>config_booknotes = Some [noteA, noteB]\<rparr> = Some [noteA, noteB]"
    by simp
  have o: "length (filter (\<lambda>n. note_id n = ''n1'') [noteA, noteB]) = 1"
    by (simp add: noteA_def noteB_def)
  have k: "(1700000002000::int) \<noteq> 0" by simp
  have a: "''n9'' \<notin> note_id ` set [noteA, noteB]"
    by (simp add: noteA_def noteB_def)
  have v: "\<forall>m \<in> set [noteA, noteB]. \<not> truthyNumber (note_deletedAt m) \<longrightarrow>
              validTimeValue (note_createdAt m) \<and> validTimeValue (note_updatedAt m)"
    by (simp add: noteA_def noteB_def validTimeValue_def)
  from soft_delete_of_unique_id [OF c n o k, where chapterIndex = None and absentId = "''n9''"
        and nowUpdated = 1700000002000] v a
  have "\<exists>annotations.
         getAnnotations \<lparr>ap_bookKey = ''abc123-1'', ap_pluginId = ''readest''\<rparr> None
           (deleteAnnotation \<lparr>ap_bookKey = ''abc123-1'', ap_pluginId = ''readest''\<rparr> ''n1''
              1700000002000 1700000002000 (hostWith [noteA, noteB])) = Inr annotations
         \<and> ''n1'' \<notin> ann_id ` set annotations"
    and "deleteAnnotation \<lparr>ap_bookKey = ''abc123-1'', ap_pluginId = ''readest''\<rparr> ''n9''
        1700000002000 1700000002000 (hostWith [noteA, noteB]) = hostWith [noteA, noteB]"
    by blast+
  with c o a show ?thesis by simp
qed

text \<open>
  Claim C3 as stated fails where two records carry the same id (ids are
  \<^verbatim>\<open>plugin-<clock>-<random>\<close> and nothing checks them for uniqueness): the second record
  stays live, and the list \<open>getAnnotations\<close> returns after the delete still has an
  annotation with the id.
\<close>

theorem soft_delete_duplicate_id_counterexample:
  "''n1'' \<in> note_id ` set (existingNotes (hostWith [noteA, noteA']) ''abc123-1'')
   \<and> (\<exists>annotations.
         getAnnotations \<lparr>ap_bookKey = ''abc123-1'', ap_pluginId = ''readest''\<rparr> None
           (deleteAnnotation \<lparr>ap_bookKey = ''abc123-1'', ap_pluginId = ''readest''\<rparr> ''n1''
              1700000002000 1700000002000 (hostWith [noteA, noteA'])) = Inr annotations
         \<and> ''n1'' \<in> ann_id ` set annotations)"
proof -
  let ?api = "\<lparr>ap_bookKey = ''abc123-1'', ap_pluginId = ''readest''\<rparr>"
  let ?host' = "deleteAnnotation ?api ''n1'' 1700000002000 1700000002000 (hostWith [noteA, noteA'])"
  let ?notes' = "[noteA, noteA'][0 := ([noteA, noteA'] ! 0)\<lparr>note_deletedAt := Some 1700000002000,
                     note_updatedAt := 1700000002000\<rparr>]"
  have c: "getConfig (hostWith [noteA, noteA']) (ap_bookKey ?api)
             = Some \<lparr>config_booknotes = Some [noteA, noteA']\<rparr>"
    by (simp add: getConfig_def hostWith_def)
  have n: "config_booknotes \<lparr>config_booknotes = Some [noteA, noteA']\<rparr> = Some [noteA, noteA']"
    by simp
  have f: "findIndex (\<lambda>n. note_id n = ''n1'') [noteA, noteA'] = Some 0"
    by (simp add: noteA_def)
  have e: "''n1'' \<in> note_id ` set (existingNotes (hostWith [noteA, noteA']) ''abc123-1'')"
    by (simp add: existingNotes_def getConfig_def hostWith_def noteA_def)
  have c': "getConfig ?host' (ap_bookKey ?api)
             = Some (\<lparr>config_booknotes = Some [noteA, noteA']\<rparr>\<lparr>config_booknotes := Some ?notes'\<rparr>)"
    by (rule getConfig_deleteAnnotation[OF c n f])
  have n': "config_booknotes (\<lparr>config_booknotes = Some [noteA, noteA']\<rparr>\<lparr>config_booknotes := Some ?notes'\<rparr>)
             = Some ?notes'" by simp
  have v: "\<forall>m \<in> set ?notes'. \<not> truthyNumber (note_deletedAt m) \<longrightarrow>
              validTimeValue (note_createdAt m) \<and> validTimeValue (note_updatedAt m)"
    by (simp add: noteA_def noteA'_def validTimeValue_def)
  from getAnnotations_returns[OF c' n' v]
  obtain annotations where g: "getAnnotations ?api None ?host' = Inr annotations"
    and every: "\<forall>m \<in> set ?notes'. \<not> truthyNumber (note_deletedAt m) \<longrightarrow>
                 (\<exists>a \<in> set annotations. mapBookNoteToSDKAnnotation m (ap_pluginId ?api) = Inr a)"
    by blast
  have "noteA' \<in> set ?notes'" by simp
  moreover have "\<not> truthyNumber (note_deletedAt noteA')"
    by (simp add: noteA'_def noteA_def truthyNumber_def)
  ultimately obtain a where a: "a \<in> set annotations"
    and "mapBookNoteToSDKAnnotation noteA' (ap_pluginId ?api) = Inr a"
    using every by blast
  from mapped_fields(3)[OF this(2)] have "ann_id a = ''n1''" by (simp add: noteA'_def noteA_def)
  with a have "''n1'' \<in> ann_id ` set annotations" by force
  with e g show ?thesis by blast
qed

section \<open>Chapter bounds\<close>

lemma getChapterCount_loaded:
  "sectionsOf (getBookData host (bp_bookKey this)) = Some (bookDoc, sections)
     \<Longrightarrow> getChapterCount this host = int (length sections)"
  by (simp add: getChapterCount_def)

lemma getChapter_loaded:
  assumes "sectionsOf (getBookData host (bp_bookKey this)) = Some (bookDoc, sections)"
  shows "getChapter this index host =
           (if index < 0 \<or> index \<ge> int (length sections)
            then Inl (ChapterIndexOutOfRange index (int (length sections) - 1))
            else Inr (loadChapter index (sections ! nat index) bookDoc))"
  using assms by (simp add: getChapter_def elementAt_def)

text \<open>
  Claim C6. When the store holds, for the provider's book key, a book document whose
  sections are loaded and not empty: \<open>getChapter\<close> at \<open>-1\<close> and at
  \<open>getChapterCount\<close> fails with the out-of-range error, \<open>getChapter\<close> at
  \<open>getChapterCount - 1\<close> succeeds with the chapter of that index, and for every
  index \<open>getChapter\<close> fails with the out-of-range error exactly when the index is
  below \<open>0\<close> or at least \<open>getChapterCount\<close>, and succeeds exactly when it is inside.
\<close>

theorem chapter_bounds:
  assumes loaded: "sectionsOf (getBookData host (bp_bookKey this)) = Some (bookDoc, sections)"
    and nonempty: "sections \<noteq> []"
  shows "getChapter this (- 1) host
           = Inl (ChapterIndexOutOfRange (- 1) (getChapterCount this host - 1))
       \<and> getChapter this (getChapterCount this host) host
           = Inl (ChapterIndexOutOfRange (getChapterCount this host) (getChapterCount this host - 1))
       \<and> (\<exists>chapter. getChapter this (getChapterCount this host - 1) host = Inr chapter
             \<and> chapter_index chapter = getChapterCount this host - 1)
       \<and> (\<forall>index. (\<exists>i last. getChapter this index host = Inl (ChapterIndexOutOfRange i last))
             \<longleftrightarrow> (index < 0 \<or> index \<ge> getChapterCount this host))
       \<and> (\<forall>index. (\<exists>chapter. getChapter this index host = Inr chapter)
             \<longleftrightarrow> (0 \<le> index \<and> index < getChapterCount this host))"
proof -
  have count: "getChapterCount this host = int (length sections)"
    using loaded by (rule getChapterCount_loaded)
  have pos: "0 < length sections" using nonempty by simp
  have idx: "chapter_index (loadChapter i s d) = i" for i s d
    by (simp add: loadChapter_def mapSectionToSDKChapter_def Let_def)
  show ?thesis
    using pos by (auto simp: count getChapter_loaded[OF loaded] idx)
qed

theorem chapter_bounds_witness:
  "sectionsOf (getBookData (hostWith []) (bp_bookKey (createBookAPI (hostWith []))))
     = Some (\<lparr>doc_sections = Some [sectionOne, sectionTwo], doc_toc = None\<rparr>, [sectionOne, sectionTwo])
   \<and> getChapterCount (createBookAPI (hostWith [])) (hostWith []) = 2
   \<and> getChapter (createBookAPI (hostWith [])) (- 1) (hostWith []) = Inl (ChapterIndexOutOfRange (- 1) 1)
   \<and> getChapter (createBookAPI (hostWith [])) 2 (hostWith []) = Inl (ChapterIndexOutOfRange 2 1)
   \<and> (\<exists>chapter. getChapter (createBookAPI (hostWith [])) 1 (hostWith []) = Inr chapter)"
proof -
  have l: "sectionsOf (getBookData (hostWith []) (bp_bookKey (createBookAPI (hostWith []))))
     = Some (\<lparr>doc_sections = Some [sectionOne, sectionTwo], doc_toc = None\<rparr>, [sectionOne, sectionTwo])"
    by (simp add: sectionsOf_def getBookData_def hostWith_def createBookAPI_def bookKeyAccessor_def)
  have n: "[sectionOne, sectionTwo] \<noteq> []" by simp
  have c: "getChapterCount (createBookAPI (hostWith [])) (hostWith []) = 2"
    using l by (simp add: getChapterCount_def)
  show ?thesis
    using l c chapter_bounds [OF l n] by simp
qed

section \<open>The book key of a book capability\<close>

text \<open>
  Claim C1 says the book capability resolves the active book key when one of its
  methods is called. \<open>createBookAPI\<close> calls the accessor once and the provider
  keeps that key: evaluated on a host where the active key was \<^verbatim>\<open>abc123-1\<close> when the
  capability was created and is \<^verbatim>\<open>xyz789-1\<close> when it is used, \<open>getCurrentBook\<close>
  and \<open>getChapterCount\<close> still answer for \<^verbatim>\<open>abc123-1\<close>, while a capability created
  after the switch answers for \<^verbatim>\<open>xyz789-1\<close>.
\<close>

theorem book_capability_keeps_creation_key:
  "bookKeyAccessor (hostWith []) = Some ''abc123-1''
   \<and> bookKeyAccessor ((hostWith [])\<lparr>host_activeBookKey := Some ''xyz789-1''\<rparr>) = Some ''xyz789-1''
   \<and> getCurrentBook (\<lambda>book. ()) (createBookAPI (hostWith []))
        ((hostWith [])\<lparr>host_activeBookKey := Some ''xyz789-1''\<rparr>)
      = Some (mapReadestBookToSDK (\<lambda>book. ()) bookAbc)
   \<and> getCurrentBook (\<lambda>book. ()) (createBookAPI ((hostWith [])\<lparr>host_activeBookKey := Some ''xyz789-1''\<rparr>))
        ((hostWith [])\<lparr>host_activeBookKey := Some ''xyz789-1''\<rparr>)
      = Some (mapReadestBookToSDK (\<lambda>book. ()) bookXyz)
   \<and> mapReadestBookToSDK (\<lambda>book. ()) bookAbc \<noteq> mapReadestBookToSDK (\<lambda>book. ()) bookXyz
   \<and> getChapterCount (createBookAPI (hostWith []))
        ((hostWith [])\<lparr>host_activeBookKey := Some ''xyz789-1''\<rparr>) = 2
   \<and> getChapterCount (createBookAPI ((hostWith [])\<lparr>host_activeBookKey := Some ''xyz789-1''\<rparr>))
        ((hostWith [])\<lparr>host_activeBookKey := Some ''xyz789-1''\<rparr>) = 1"
  by (simp add: bookKeyAccessor_def createBookAPI_def getCurrentBook_def getChapterCount_def
      sectionsOf_def getBookData_def hostWith_def mapReadestBookToSDK_def bookAbc_def bookXyz_def)

section \<open>Initialization\<close>

lemma loadDiscovered_result:
  "loadDiscovered env discovered (loader, n)
     = (loader\<lparr>loader_activated := loader_activated loader
           @ map manifestPath
               (filter (\<lambda>p. manifest p \<noteq> None \<and> env_loadError env (manifestPath p) = None) discovered)\<rparr>,
        n + length (filter (\<lambda>p. manifest p \<noteq> None \<and> env_loadError env (manifestPath p) = None)
                      discovered))"
  by (induction discovered arbitrary: loader n)
     (auto simp: loadPlugin_def split: option.splits)

lemma initializePlugins_ready:
  "\<exists>rt'. initializePlugins env rt = Inr rt' \<and> initialized (rt_store rt')"
  by (auto simp: initializePlugins_def initializeBody_def setInitialized_def setPluginCount_def
      Let_def case_prod_beta split: option.splits sum.splits)

lemma initializePlugins_discovered:
  assumes "env_hostProviderError env = None" and "env_pluginsDir env \<noteq> []"
    and "env_discover env (env_pluginsDir env) = Inr discovered"
  shows "initializePlugins env rt
           = Inr (rt\<lparr>rt_loader := Some \<lparr>loader_activated = map manifestPath
                      (filter (\<lambda>p. manifest p \<noteq> None \<and> env_loadError env (manifestPath p) = None)
                         discovered)\<rparr>,
                    rt_hostProvider := True,
                    rt_bookKeyAccessor := True,
                    rt_store := setInitialized True (setPluginCount
                      (length (filter (\<lambda>p. manifest p \<noteq> None \<and> env_loadError env (manifestPath p) = None)
                         discovered)) (rt_store rt))\<rparr>)"
  using assms
  by (simp add: initializePlugins_def initializeBody_def discoverPlugins_def
      loadDiscovered_result Let_def)

lemma initializePlugins_failed:
  assumes "env_hostProviderError env \<noteq> None
        \<or> (env_pluginsDir env \<noteq> [] \<and> (\<exists>msg. env_discover env (env_pluginsDir env) = Inl msg))"
  shows "\<exists>rt'. initializePlugins env rt = Inr rt'
             \<and> initialized (rt_store rt') \<and> pluginCount (rt_store rt') = 0"
proof (cases "env_hostProviderError env")
  case (Some msg)
  then show ?thesis
    by (simp add: initializePlugins_def initializeBody_def setInitialized_def setPluginCount_def)
next
  case None
  with assms obtain msg where "env_pluginsDir env \<noteq> []"
    "env_discover env (env_pluginsDir env) = Inl msg" by auto
  with None show ?thesis
    by (simp add: initializePlugins_def initializeBody_def discoverPlugins_def
        setInitialized_def setPluginCount_def Let_def)
qed

text \<open>
  Claim C2. \<open>initializePlugins\<close> never throws and always leaves the store
  initialized. When discovery returns manifests among which \<open>m1\<close> is valid and
  loads and activates, and \<open>m2\<close> is valid and fails to load, \<open>m1\<close> is among the
  plugins the loader has activated afterwards and \<open>m2\<close> is not, the store is
  initialized and its plugin count is the number of activated plugins (at least one).
  When creating the host provider or the discovery itself fails, the store is
  initialized with a plugin count of zero.
\<close>

theorem initialize_isolates_plugin_failures:
  "(\<exists>rt'. initializePlugins env rt = Inr rt' \<and> initialized (rt_store rt'))
   \<and> (env_hostProviderError env = None \<and> env_pluginsDir env \<noteq> []
        \<and> env_discover env (env_pluginsDir env) = Inr discovered
        \<and> m1 \<in> set discovered \<and> manifest m1 \<noteq> None \<and> env_loadError env (manifestPath m1) = None
        \<and> m2 \<in> set discovered \<and> manifest m2 \<noteq> None \<and> env_loadError env (manifestPath m2) \<noteq> None
      \<longrightarrow> (\<exists>rt' loader. initializePlugins env rt = Inr rt'
             \<and> rt_loader rt' = Some loader
             \<and> manifestPath m1 \<in> set (loader_activated loader)
             \<and> manifestPath m2 \<notin> set (loader_activated loader)
             \<and> initialized (rt_store rt')
             \<and> pluginCount (rt_store rt') = length (loader_activated loader)
             \<and> 1 \<le> pluginCount (rt_store rt')))
   \<and> (env_hostProviderError env \<noteq> None
        \<or> (env_pluginsDir env \<noteq> [] \<and> (\<exists>msg. env_discover env (env_pluginsDir env) = Inl msg))
      \<longrightarrow> (\<exists>rt'. initializePlugins env rt = Inr rt'
             \<and> initialized (rt_store rt') \<and> pluginCount (rt_store rt') = 0))"
proof (intro conjI impI)
  show "\<exists>rt'. initializePlugins env rt = Inr rt' \<and> initialized (rt_store rt')"
    by (rule initializePlugins_ready)
next
  let ?ok = "\<lambda>p. manifest p \<noteq> None \<and> env_loadError env (manifestPath p) = None"
  assume h: "env_hostProviderError env = None \<and> env_pluginsDir env \<noteq> []
        \<and> env_discover env (env_pluginsDir env) = Inr discovered
        \<and> m1 \<in> set discovered \<and> manifest m1 \<noteq> None \<and> env_loadError env (manifestPath m1) = None
        \<and> m2 \<in> set discovered \<and> manifest m2 \<noteq> None \<and> env_loadError env (manifestPath m2) \<noteq> None"
  then have in1: "m1 \<in> set (filter ?ok discovered)" by simp
  have p1: "manifestPath m1 \<in> set (map manifestPath (filter ?ok discovered))"
    unfolding set_map using in1 by (rule imageI)
  have p2: "manifestPath m2 \<notin> set (map manifestPath (filter ?ok discovered))"
    using h by auto
  have pos: "1 \<le> length (filter ?ok discovered)"
    using length_pos_if_in_set[OF in1] by arith
  define loader where "loader = \<lparr>loader_activated = map manifestPath (filter ?ok discovered)\<rparr>"
  define rt' where "rt' = rt\<lparr>rt_loader := Some loader,
                    rt_hostProvider := True,
                    rt_bookKeyAccessor := True,
                    rt_store := setInitialized True (setPluginCount
                      (length (filter ?ok discovered)) (rt_store rt))\<rparr>"
  from h have eq: "initializePlugins env rt = Inr rt'"
    unfolding rt'_def loader_def by (intro initializePlugins_discovered) simp_all
  have l: "rt_loader rt' = Some loader" by (simp add: rt'_def)
  have a1: "manifestPath m1 \<in> set (loader_activated loader)" using p1 by (simp add: loader_def)
  have a2: "manifestPath m2 \<notin> set (loader_activated loader)" using p2 by (simp add: loader_def)
  have i: "initialized (rt_store rt')" by (simp add: rt'_def setInitialized_def)
  have c: "pluginCount (rt_store rt') = length (loader_activated loader)"
    by (simp add: rt'_def loader_def setInitialized_def setPluginCount_def)
  have c1: "1 \<le> pluginCount (rt_store rt')" using pos c by (simp add: loader_def)
  from eq l a1 a2 i c c1
  show "\<exists>rt' loader. initializePlugins env rt = Inr rt'
             \<and> rt_loader rt' = Some loader
             \<and> manifestPath m1 \<in> set (loader_activated loader)
             \<and> manifestPath m2 \<notin> set (loader_activated loader)
             \<and> initialized (rt_store rt')
             \<and> pluginCount (rt_store rt') = length (loader_activated loader)
             \<and> 1 \<le> pluginCount (rt_store rt')"
    by blast
next
  assume "env_hostProviderError env \<noteq> None
        \<or> (env_pluginsDir env \<noteq> [] \<and> (\<exists>msg. env_discover env (env_pluginsDir env) = Inl msg))"
  then show "\<exists>rt'. initializePlugins env rt = Inr rt'
             \<and> initialized (rt_store rt') \<and> pluginCount (rt_store rt') = 0"
    by (rule initializePlugins_failed)
qed

theorem initialize_isolates_plugin_failures_witness:
  "env_hostProviderError desktopEnvironment = None
   \<and> env_pluginsDir desktopEnvironment \<noteq> []
   \<and> env_discover desktopEnvironment (env_pluginsDir desktopEnvironment)
        = Inr [brokenPlugin, invalidPlugin, goodPlugin]
   \<and> manifest goodPlugin \<noteq> None \<and> env_loadError desktopEnvironment (manifestPath goodPlugin) = None
   \<and> manifest brokenPlugin \<noteq> None
   \<and> env_loadError desktopEnvironment (manifestPath brokenPlugin) \<noteq> None
   \<and> (\<exists>rt' loader. initializePlugins desktopEnvironment initialRuntime = Inr rt'
         \<and> rt_loader rt' = Some loader
         \<and> manifestPath goodPlugin \<in> set (loader_activated loader)
         \<and> manifestPath brokenPlugin \<notin> set (loader_activated loader)
         \<and> initialized (rt_store rt')
         \<and> 1 \<le> pluginCount (rt_store rt'))"
proof -
  have h: "env_hostProviderError desktopEnvironment = None
     \<and> env_pluginsDir desktopEnvironment \<noteq> []
     \<and> env_discover desktopEnvironment (env_pluginsDir desktopEnvironment)
          = Inr [brokenPlugin, invalidPlugin, goodPlugin]
     \<and> goodPlugin \<in> set [brokenPlugin, invalidPlugin, goodPlugin]
     \<and> manifest goodPlugin \<noteq> None \<and> env_loadError desktopEnvironment (manifestPath goodPlugin) = None
     \<and> brokenPlugin \<in> set [brokenPlugin, invalidPlugin, goodPlugin]
     \<and> manifest brokenPlugin \<noteq> None
     \<and> env_loadError desktopEnvironment (manifestPath brokenPlugin) \<noteq> None"
    by (simp add: desktopEnvironment_def goodPlugin_def brokenPlugin_def)
  from h initialize_isolates_plugin_failures
      [where env = desktopEnvironment and rt = initialRuntime
         and discovered = "[brokenPlugin, invalidPlugin, goodPlugin]"
         and ?m1.0 = goodPlugin and ?m2.0 = brokenPlugin]
  show ?thesis by blast
qed

section \<open>The process bridge\<close>

lemma killed_step: "killed s \<Longrightarrow> killed (step s a)"
proof (cases a)
  case (Emit ev)
  then show "killed s \<Longrightarrow> killed (step s a)"
    by (cases ev) (simp_all add: callHandlers_def)
qed (simp_all add: kill_def on_def stdoutOn_def stderrOn_def commandCreated_def
      spawnResolved_def spawnRejected_def callHandlers_def Let_def split: option.splits)

lemma killed_run: "killed s \<Longrightarrow> killed (run actions s)"
  unfolding run_def by (induction actions arbitrary: s) (simp_all add: killed_step)

lemma spawnResolved_killed:
  "killed s \<Longrightarrow> proc_phase s = AwaitingSpawn \<Longrightarrow>
     spawnResolved child s
       = s\<lparr>childPid := Some child, childKill := Some child, proc_phase := Running,
           proc_trace := proc_trace s @ [ChildKill child]\<rparr>"
  by (simp add: spawnResolved_def Let_def)

text \<open>
  Claim C4. \<open>kill\<close> always returns \<open>True\<close> and sets the kill flag; on a handle whose
  spawn has not resolved it does nothing else. Whatever happens to the handle after
  that (handlers registered, further kills, the command created, events), if the spawn
  then resolves with a child, the resolution itself calls \<^verbatim>\<open>child.kill()\<close> on that
  child: the call is the last entry of the trace and the handle's pid is the child's.
\<close>

theorem deferred_kill:
  "fst (kill s) = True
   \<and> killed (snd (kill s))
   \<and> (childKill s = None \<longrightarrow> proc_trace (snd (kill s)) = proc_trace s)
   \<and> (proc_phase (run actions (snd (kill s))) = AwaitingSpawn \<longrightarrow>
        proc_trace (spawnResolved child (run actions (snd (kill s))))
          = proc_trace (run actions (snd (kill s))) @ [ChildKill child]
        \<and> pid (spawnResolved child (run actions (snd (kill s)))) = Some child)"
proof -
  have k: "killed (snd (kill s))" by (simp add: kill_def Let_def split: option.splits)
  have r: "fst (kill s) = True" by (simp add: kill_def Let_def split: option.splits)
  have d: "childKill s = None \<Longrightarrow> proc_trace (snd (kill s)) = proc_trace s"
    by (simp add: kill_def Let_def)
  have "killed (run actions (snd (kill s)))" using k by (rule killed_run)
  then have f: "proc_phase (run actions (snd (kill s))) = AwaitingSpawn \<Longrightarrow>
        proc_trace (spawnResolved child (run actions (snd (kill s))))
          = proc_trace (run actions (snd (kill s))) @ [ChildKill child]
        \<and> pid (spawnResolved child (run actions (snd (kill s)))) = Some child"
    by (simp add: spawnResolved_killed pid_def)
  from k r d f show ?thesis by blast
qed

theorem deferred_kill_witness:
  "childKill (spawn ''sidecar'' [''--port'', ''0'']) = None
   \<and> fst (kill (spawn ''sidecar'' [''--port'', ''0''])) = True
   \<and> proc_phase (run [CallOn ''exit'' (quietHandler 7), CommandCreated]
        (snd (kill (spawn ''sidecar'' [''--port'', ''0'']))))
       = AwaitingSpawn
   \<and> proc_trace (spawnResolved 4242
        (run [CallOn ''exit'' (quietHandler 7), CommandCreated]
           (snd (kill (spawn ''sidecar'' [''--port'', ''0''])))))
       = [ChildKill 4242]"
proof -
  have p: "proc_phase (run [CallOn ''exit'' (quietHandler 7), CommandCreated]
             (snd (kill (spawn ''sidecar'' [''--port'', ''0'']))))
       = AwaitingSpawn"
    by (simp add: run_def kill_def spawn_def on_def commandCreated_def)
  have t: "proc_trace (run [CallOn ''exit'' (quietHandler 7), CommandCreated]
             (snd (kill (spawn ''sidecar'' [''--port'', ''0''])))) = []"
    by (simp add: run_def kill_def spawn_def on_def commandCreated_def)
  have c: "childKill (spawn ''sidecar'' [''--port'', ''0'']) = None" by (simp add: spawn_def)
  from p t c deferred_kill [where s = "spawn ''sidecar'' [''--port'', ''0'']"
         and actions = "[CallOn ''exit'' (quietHandler 7), CommandCreated]" and child = 4242]
  show ?thesis by simp
qed

lemma running_step: "proc_phase s = Running \<Longrightarrow> proc_phase (step s a) = Running"
proof (cases a)
  case (Emit ev)
  then show "proc_phase s = Running \<Longrightarrow> proc_phase (step s a) = Running"
    by (cases ev) (simp_all add: callHandlers_def)
qed (simp_all add: kill_def on_def stdoutOn_def stderrOn_def commandCreated_def
      spawnResolved_def spawnRejected_def Let_def split: option.splits)

lemma callsOf_append: "callsOf ch h (xs @ ys) = callsOf ch h xs @ callsOf ch h ys"
  by (induction ch h xs rule: callsOf.induct) simp_all

lemma callsOf_handlers:
  "callsOf ch h (map (\<lambda>h'. HandlerCall ch' h' p) hs)
     = (if ch' = ch then replicate (count_list hs h) p else [])"
  by (induction hs) auto

text \<open>
  The handlers of a channel are the handlers registered for it, in the order of the
  calls of \<open>on\<close>, \<open>stdoutOn\<close> and \<open>stderrOn\<close>; no other step touches them.
\<close>

lemma handlers_step: "handlersOf ch (step s a) = handlersOf ch s @ registered ch [a]"
proof (cases a)
  case (Emit ev)
  then show ?thesis
    by (cases ev; cases ch) (simp_all add: callHandlers_def)
next
  case CallKill
  then show ?thesis
    by (cases ch) (simp_all add: kill_def Let_def split: option.splits)
next
  case (CallOn event handler)
  then show ?thesis
    by (cases ch) (auto simp: on_def)
next
  case (CallStdoutOn event handler)
  then show ?thesis
    by (cases ch) (auto simp: stdoutOn_def)
next
  case (CallStderrOn event handler)
  then show ?thesis
    by (cases ch) (auto simp: stderrOn_def)
next
  case CommandCreated
  then show ?thesis
    by (cases ch) (simp_all add: commandCreated_def)
next
  case (SpawnResolved child)
  then show ?thesis
    by (cases ch) (simp_all add: spawnResolved_def Let_def)
next
  case (SpawnRejected err)
  then show ?thesis
    by (cases ch) (simp_all add: spawnRejected_def callHandlers_def)
qed

lemma registered_Cons: "registered ch (a # actions) = registered ch [a] @ registered ch actions"
  by (cases a) simp_all

lemma emitted_Cons: "emitted ch (a # actions) = emitted ch [a] @ emitted ch actions"
  by (cases a) simp_all

lemma handlers_run: "handlersOf ch (run actions s) = handlersOf ch s @ registered ch actions"
proof (induction actions arbitrary: s)
  case Nil
  then show ?case by (simp add: run_def)
next
  case (Cons a actions)
  have "run (a # actions) s = run actions (step s a)" by (simp add: run_def)
  then show ?case
    using Cons.IH[of "step s a"] by (simp add: handlers_step registered_Cons[of ch a actions])
qed

lemma handlers_spawn: "handlersOf ch (spawn command args) = []"
  by (cases ch) (simp_all add: spawn_def)

lemma calledHandlers_subset: "set (calledHandlers p hs) \<subseteq> set hs"
  by (induction hs) auto

lemma calledHandlers_once:
  assumes "count_list hs h = 1"
    and "\<forall>h0 \<in> set (takeWhile (\<lambda>x. x \<noteq> h) hs). \<not> handler_throws h0 p"
  shows "count_list (calledHandlers p hs) h = 1"
  using assms
proof (induction hs)
  case Nil
  then show ?case by simp
next
  case (Cons x xs)
  show ?case
  proof (cases "x = h")
    case True
    with Cons.prems(1) have "count_list xs h = 0" by simp
    then have "h \<notin> set xs" by (simp add: count_list_0_iff)
    with calledHandlers_subset[of p xs] have "h \<notin> set (calledHandlers p xs)" by blast
    then have "count_list (calledHandlers p xs) h = 0" by (simp add: count_list_0_iff)
    with True show ?thesis by simp
  next
    case False
    with Cons.prems(2) have quiet: "\<not> handler_throws x p" by simp
    from False Cons.prems have "count_list (calledHandlers p xs) h = 1"
      by (intro Cons.IH) simp_all
    with False quiet show ?thesis by simp
  qed
qed

lemma emit_running:
  "proc_phase s = Running \<Longrightarrow> emit ev s = callHandlers (channelOf ev) (payloadOf ev) s"
  by (cases ev) (simp_all add: listening_def)

lemma calls_step:
  assumes "proc_phase s = Running" and "count_list (handlersOf ch s) h = 1"
    and "\<forall>h0 \<in> set (takeWhile (\<lambda>x. x \<noteq> h) (handlersOf ch s)).
           \<forall>p \<in> set (emitted ch [a]). \<not> handler_throws h0 p"
  shows "callsOf ch h (proc_trace (step s a)) = callsOf ch h (proc_trace s) @ emitted ch [a]"
proof (cases a)
  case (Emit ev)
  show ?thesis
  proof (cases "channelOf ev = ch")
    case True
    with assms(3) Emit
    have "\<forall>h0 \<in> set (takeWhile (\<lambda>x. x \<noteq> h) (handlersOf ch s)). \<not> handler_throws h0 (payloadOf ev)"
      by simp
    with assms(2) have "count_list (calledHandlers (payloadOf ev) (handlersOf ch s)) h = 1"
      by (rule calledHandlers_once)
    with Emit True assms(1) show ?thesis
      by (simp add: emit_running callHandlers_def callsOf_append callsOf_handlers)
  next
    case False
    with Emit assms(1) show ?thesis
      by (simp add: emit_running callHandlers_def callsOf_append callsOf_handlers)
  qed
next
  case CallKill
  then show ?thesis by (simp add: kill_def Let_def callsOf_append split: option.splits)
next
  case (SpawnResolved child)
  with assms(1) show ?thesis by (simp add: spawnResolved_def)
next
  case (SpawnRejected err)
  with assms(1) show ?thesis by (simp add: spawnRejected_def)
qed (simp_all add: on_def stdoutOn_def stderrOn_def commandCreated_def)

lemma calls_run:
  assumes "proc_phase s = Running" and "count_list (handlersOf ch s) h = 1"
    and "h \<notin> set (registered ch actions)"
    and "\<forall>h0 \<in> set (takeWhile (\<lambda>x. x \<noteq> h) (handlersOf ch s)).
           \<forall>p \<in> set (emitted ch actions). \<not> handler_throws h0 p"
  shows "callsOf ch h (proc_trace (run actions s)) = callsOf ch h (proc_trace s) @ emitted ch actions"
  using assms
proof (induction actions arbitrary: s)
  case Nil
  then show ?case by (simp add: run_def)
next
  case (Cons a actions)
  have r: "run (a # actions) s = run actions (step s a)" by (simp add: run_def)
  have p: "proc_phase (step s a) = Running" using Cons.prems(1) by (rule running_step)
  from Cons.prems(3) have fresh: "h \<notin> set (registered ch [a])" "h \<notin> set (registered ch actions)"
    by (simp_all add: registered_Cons[of ch a actions])
  from Cons.prems(2) have present: "h \<in> set (handlersOf ch s)"
    using count_list_0_iff[of "handlersOf ch s" h] by auto
  have c: "count_list (handlersOf ch (step s a)) h = 1"
    using Cons.prems(2) fresh(1) by (simp add: handlers_step count_list_0_iff)
  have before: "takeWhile (\<lambda>x. x \<noteq> h) (handlersOf ch (step s a))
                  = takeWhile (\<lambda>x. x \<noteq> h) (handlersOf ch s)"
    unfolding handlers_step using present by (intro takeWhile_append1) simp_all
  have quiet1: "\<forall>h0 \<in> set (takeWhile (\<lambda>x. x \<noteq> h) (handlersOf ch s)).
           \<forall>p \<in> set (emitted ch [a]). \<not> handler_throws h0 p"
    using Cons.prems(4) by (simp add: emitted_Cons[of ch a actions])
  have quiet2: "\<forall>h0 \<in> set (takeWhile (\<lambda>x. x \<noteq> h) (handlersOf ch (step s a))).
           \<forall>p \<in> set (emitted ch actions). \<not> handler_throws h0 p"
    unfolding before using Cons.prems(4) by (simp add: emitted_Cons[of ch a actions])
  have "callsOf ch h (proc_trace (run actions (step s a)))
          = callsOf ch h (proc_trace (step s a)) @ emitted ch actions"
    using p c fresh(2) quiet2 by (rule Cons.IH)
  also have "callsOf ch h (proc_trace (step s a)) = callsOf ch h (proc_trace s) @ emitted ch [a]"
    using Cons.prems(1,2) quiet1 by (rule calls_step)
  finally show ?case
    unfolding r by (simp add: emitted_Cons[of ch a actions])
qed

lemma resolved_state:
  assumes "proc_phase s = AwaitingSpawn"
  shows "proc_phase (spawnResolved child s) = Running"
    and "handlersOf ch (spawnResolved child s) = handlersOf ch s"
    and "callsOf ch h (proc_trace (spawnResolved child s)) = callsOf ch h (proc_trace s)"
  using assms by (cases ch; simp add: spawnResolved_def Let_def callsOf_append)+

text \<open>
  Claim C5, as the code has it. A handler registered for \<^verbatim>\<open>exit\<close> right after
  \<open>spawn\<close> returned, before the command is created and the spawn resolves, is called
  exactly once, with code \<open>0\<close>, when the process then closes with code \<open>0\<close>: that
  call is the whole trace. In general, take a handle from \<open>spawn\<close>, any calls and
  steps \<open>pre\<close> on it that leave it waiting for the spawn to resolve, the resolution,
  and any calls and steps \<open>post\<close> after it. A handler that \<open>pre\<close> registers exactly
  once for a channel (through \<open>on\<close> with \<^verbatim>\<open>exit\<close> or \<^verbatim>\<open>error\<close>, \<open>stdoutOn\<close> or
  \<open>stderrOn\<close>) and \<open>post\<close> does not register again is called, after the resolution,
  with the payload of every event the command emits on that channel, once each, in
  the order of emission, and with nothing else, provided that no handler registered
  for the channel before it throws on one of these payloads: the loop over the
  handlers does not catch, so a handler that throws keeps the event from the
  handlers registered after it.
\<close>

theorem handlers_receive_every_event:
  "proc_trace (run [CallOn ''exit'' h, CommandCreated, SpawnResolved child, Emit (Close (Some 0))]
      (spawn command args))
     = [HandlerCall ExitChannel h (ExitCode (Some 0))]
   \<and> (proc_phase (run pre (spawn command args)) = AwaitingSpawn
        \<and> count_list (registered ch pre) h' = 1
        \<and> h' \<notin> set (registered ch post)
        \<and> (\<forall>h0 \<in> set (takeWhile (\<lambda>x. x \<noteq> h') (registered ch pre)).
              \<forall>p \<in> set (emitted ch post). \<not> handler_throws h0 p)
      \<longrightarrow> callsOf ch h'
              (proc_trace (run post (spawnResolved child (run pre (spawn command args)))))
            = callsOf ch h' (proc_trace (run pre (spawn command args))) @ emitted ch post)"
proof -
  have one: "proc_trace (run [CallOn ''exit'' h, CommandCreated, SpawnResolved child,
                 Emit (Close (Some 0))] (spawn command args))
     = [HandlerCall ExitChannel h (ExitCode (Some 0))]"
    by (simp add: run_def spawn_def on_def commandCreated_def spawnResolved_def listening_def
        callHandlers_def Let_def)
  let ?s = "run pre (spawn command args)"
  have hs: "handlersOf ch ?s = registered ch pre"
    by (simp add: handlers_run handlers_spawn)
  have every: "callsOf ch h' (proc_trace (run post (spawnResolved child ?s)))
            = callsOf ch h' (proc_trace ?s) @ emitted ch post"
    if h: "proc_phase ?s = AwaitingSpawn
        \<and> count_list (registered ch pre) h' = 1
        \<and> h' \<notin> set (registered ch post)
        \<and> (\<forall>h0 \<in> set (takeWhile (\<lambda>x. x \<noteq> h') (registered ch pre)).
              \<forall>p \<in> set (emitted ch post). \<not> handler_throws h0 p)"
  proof -
    from h have w: "proc_phase ?s = AwaitingSpawn" by simp
    have p: "proc_phase (spawnResolved child ?s) = Running" using w by (rule resolved_state(1))
    have same: "handlersOf ch (spawnResolved child ?s) = registered ch pre"
      using resolved_state(2)[OF w] hs by simp
    have c: "count_list (handlersOf ch (spawnResolved child ?s)) h' = 1"
      using h same by simp
    have f: "h' \<notin> set (registered ch post)" using h by simp
    have q: "\<forall>h0 \<in> set (takeWhile (\<lambda>x. x \<noteq> h') (handlersOf ch (spawnResolved child ?s))).
              \<forall>p \<in> set (emitted ch post). \<not> handler_throws h0 p"
      unfolding same using h by simp
    from calls_run[OF p c f q] resolved_state(3)[OF w] show ?thesis by simp
  qed
  from one every show ?thesis by blast
qed

theorem handlers_receive_every_event_witness:
  "proc_phase (run [CallStdoutOn ''data'' (quietHandler 1), CallStdoutOn ''data'' (quietHandler 3),
                    CallStdoutOn ''data'' (throwingHandler 9), CallOn ''exit'' (quietHandler 7),
                    CommandCreated]
      (spawn ''sidecar'' [])) = AwaitingSpawn
   \<and> registered StdoutChannel
        [CallStdoutOn ''data'' (quietHandler 1), CallStdoutOn ''data'' (quietHandler 3),
         CallStdoutOn ''data'' (throwingHandler 9), CallOn ''exit'' (quietHandler 7),
         CommandCreated]
       = [quietHandler 1, quietHandler 3, throwingHandler 9]
   \<and> emitted StdoutChannel
        [Emit (StdoutData ''a''), CallKill, Emit (Close (Some 0)), Emit (StdoutData ''b'')]
       = [BufferLike ''a'', BufferLike ''b'']
   \<and> callsOf StdoutChannel (quietHandler 3) (proc_trace
        (run [Emit (StdoutData ''a''), CallKill, Emit (Close (Some 0)), Emit (StdoutData ''b'')]
          (spawnResolved 4242
            (run [CallStdoutOn ''data'' (quietHandler 1), CallStdoutOn ''data'' (quietHandler 3),
                  CallStdoutOn ''data'' (throwingHandler 9), CallOn ''exit'' (quietHandler 7),
                  CommandCreated]
              (spawn ''sidecar'' [])))))
       = [BufferLike ''a'', BufferLike ''b'']"
proof -
  let ?pre = "[CallStdoutOn ''data'' (quietHandler 1), CallStdoutOn ''data'' (quietHandler 3),
               CallStdoutOn ''data'' (throwingHandler 9), CallOn ''exit'' (quietHandler 7),
               CommandCreated]"
  let ?post = "[Emit (StdoutData ''a''), CallKill, Emit (Close (Some 0)), Emit (StdoutData ''b'')]"
  have p: "proc_phase (run ?pre (spawn ''sidecar'' [])) = AwaitingSpawn"
    by (simp add: run_def spawn_def stdoutOn_def on_def commandCreated_def)
  have r: "registered StdoutChannel ?pre = [quietHandler 1, quietHandler 3, throwingHandler 9]"
    by simp
  have e: "emitted StdoutChannel ?post = [BufferLike ''a'', BufferLike ''b'']"
    by simp
  have c: "count_list (registered StdoutChannel ?pre) (quietHandler 3) = 1"
    by (simp add: quietHandler_def throwingHandler_def)
  have f: "quietHandler 3 \<notin> set (registered StdoutChannel ?post)"
    by simp
  have q: "\<forall>h0 \<in> set (takeWhile (\<lambda>x. x \<noteq> quietHandler 3) (registered StdoutChannel ?pre)).
             \<forall>p \<in> set (emitted StdoutChannel ?post). \<not> handler_throws h0 p"
    by (simp add: quietHandler_def throwingHandler_def)
  have t: "callsOf StdoutChannel (quietHandler 3) (proc_trace (run ?pre (spawn ''sidecar'' []))) = []"
    by (simp add: run_def spawn_def stdoutOn_def on_def commandCreated_def)
  from p r e c f q t handlers_receive_every_event
      [where pre = ?pre and post = ?post and ch = StdoutChannel and h' = "quietHandler 3"
         and command = "''sidecar''" and args = "[]" and child = 4242]
  show ?thesis by simp
qed

text \<open>
  Claim C5 as stated fails where a handler throws. Two handlers are registered for
  the output of the process before the spawn resolves, and the first one throws;
  when the process writes a line after the resolution, the listener calls the first
  handler, the exception ends its loop, and the second handler is not called: it has
  lost the event.
\<close>

theorem handlers_receive_every_event_counterexample:
  "proc_phase (run [CallStdoutOn ''data'' (throwingHandler 1),
                    CallStdoutOn ''data'' (quietHandler 2), CommandCreated]
      (spawn ''sidecar'' [])) = AwaitingSpawn
   \<and> registered StdoutChannel
        [CallStdoutOn ''data'' (throwingHandler 1), CallStdoutOn ''data'' (quietHandler 2),
         CommandCreated]
       = [throwingHandler 1, quietHandler 2]
   \<and> emitted StdoutChannel [Emit (StdoutData ''a'')] = [BufferLike ''a'']
   \<and> proc_trace
        (run [Emit (StdoutData ''a'')]
          (spawnResolved 4242
            (run [CallStdoutOn ''data'' (throwingHandler 1),
                  CallStdoutOn ''data'' (quietHandler 2), CommandCreated]
              (spawn ''sidecar'' []))))
       = [HandlerCall StdoutChannel (throwingHandler 1) (BufferLike ''a'')]
   \<and> callsOf StdoutChannel (quietHandler 2) (proc_trace
        (run [Emit (StdoutData ''a'')]
          (spawnResolved 4242
            (run [CallStdoutOn ''data'' (throwingHandler 1),
                  CallStdoutOn ''data'' (quietHandler 2), CommandCreated]
              (spawn ''sidecar'' [])))))
       = []"
  by (simp add: run_def spawn_def stdoutOn_def commandCreated_def spawnResolved_def
      listening_def callHandlers_def quietHandler_def throwingHandler_def Let_def)

end
